theory Spec2Isabelle
  imports Main "HOL-Library.Multiset"
begin

section \<open>Python values and text\<close>

text \<open>
  The values that flow through the tab manager are dynamically typed: a folder or a
  command is \<^verbatim>\<open>None\<close>, a \<^verbatim>\<open>str\<close> from the command line, or whatever
  \<^verbatim>\<open>json.loads\<close> produced. Text is modelled as \<open>string\<close>, one \<open>char\<close> per code
  point below 256; on the wire only ASCII is covered.
\<close>

datatype pyval =
    PNone
  | PBool bool
  | PInt int
  | PStr string
  | PList "pyval list"
  | PDict "(string \<times> pyval) list"

text \<open>Truth value testing, as \<^verbatim>\<open>if x:\<close> and \<^verbatim>\<open>x or y\<close> do it.\<close>

fun truthy :: "pyval \<Rightarrow> bool" where
  "truthy PNone = False"
| "truthy (PBool b) = b"
| "truthy (PInt n) = (n \<noteq> 0)"
| "truthy (PStr s) = (s \<noteq> [])"
| "truthy (PList xs) = (xs \<noteq> [])"
| "truthy (PDict kvs) = (kvs \<noteq> [])"

definition py_or :: "pyval \<Rightarrow> pyval \<Rightarrow> pyval" where
  "py_or a b = (if truthy a then a else b)"

text \<open>\<^verbatim>\<open>str(n)\<close> for a non-negative integer: its decimal digits.\<close>

definition digit_char :: "nat \<Rightarrow> char" where
  "digit_char d = char_of (48 + d)"

function str_nat :: "nat \<Rightarrow> string" where
  "str_nat n = (if n < 10 then [digit_char n] else str_nat (n div 10) @ [digit_char (n mod 10)])"
  by pat_completeness auto
termination
  by (relation "measure id") auto

declare str_nat.simps [simp del]

section \<open>XTermWidget\<close>

text \<open>
  One embedded terminal. \<open>process_running\<close> is the state of its \<^verbatim>\<open>QProcess\<close> as
  far as this program drives it, \<open>launches\<close> counts the calls of \<^verbatim>\<open>start_uxterm\<close>.
  The launch is taken to succeed; when it fails the source shows a dialog and the tab
  bookkeeping below runs unchanged. Fonts and colours are not modelled.
\<close>

record xterm =
  w_initial_directory :: pyval
  w_command :: pyval
  process_running :: bool
  launches :: nat

definition start_uxterm :: "xterm \<Rightarrow> xterm" where
  "start_uxterm w = w\<lparr>process_running := True, launches := launches w + 1\<rparr>"

definition terminate :: "xterm \<Rightarrow> xterm" where
  "terminate w = w\<lparr>process_running := False\<rparr>"

definition restart_uxterm :: "xterm \<Rightarrow> xterm" where
  "restart_uxterm w = start_uxterm (terminate w)"

definition apply_settings :: "xterm \<Rightarrow> xterm" where
  "apply_settings w = restart_uxterm w"

definition XTermWidget :: "string \<Rightarrow> pyval \<Rightarrow> pyval \<Rightarrow> xterm" where
  "XTermWidget cwd initial_directory0 command0 =
     start_uxterm \<lparr>w_initial_directory = py_or initial_directory0 (PStr cwd),
                   w_command = command0, process_running = False, launches = 0\<rparr>"

subsection \<open>Following the size of the widget\<close>

text \<open>
  The part of a terminal widget that keeps the terminal at the size of the widget:
  the size of the widget, the timer \<^verbatim>\<open>resize_timer\<close> that \<^verbatim>\<open>setup_ui\<close> creates as
  a single-shot timer and connects to \<^verbatim>\<open>resize_terminal\<close>, and the calls of
  \<^verbatim>\<open>resize_terminal\<close> made so far. The timer is the number of milliseconds left
  until it fires, \<open>None\<close> while it is not running. A call is recorded with the
  width and height that it read from the widget and the columns and rows that it
  computed from them for \<^verbatim>\<open>stty\<close>, as the source does for the window that
  \<^verbatim>\<open>xdotool\<close> finds for the running process; what \<^verbatim>\<open>xdotool\<close> and
  \<^verbatim>\<open>stty\<close> then do is outside the program. \<^verbatim>\<open>start_uxterm\<close> asks for one call of its own a tenth of a
  second after each launch, through \<^verbatim>\<open>QTimer.singleShot\<close>; that call does not pass
  through \<^verbatim>\<open>resize_timer\<close> and is not counted here.
\<close>

record resizer =
  size_width :: nat
  size_height :: nat
  resize_timer :: "nat option"
  resize_calls :: "(nat \<times> nat \<times> nat \<times> nat) list"

definition resize_terminal :: "resizer \<Rightarrow> resizer" where
  "resize_terminal r =
     (let char_width = 7;
          char_height = 15;
          cols = max 1 (size_width r div char_width);
          rows = max 1 (size_height r div char_height)
      in r\<lparr>resize_calls := resize_calls r @ [(size_width r, size_height r, cols, rows)]\<rparr>)"

text \<open>
  \<^verbatim>\<open>QTimer.start(msec)\<close> starts the timer, and starts it again from the full
  interval when it is running already.
\<close>

definition timer_start :: "nat \<Rightarrow> resizer \<Rightarrow> resizer" where
  "timer_start msec r = r\<lparr>resize_timer := Some msec\<rparr>"

datatype qevent = Resize | OtherEvent

definition eventFilter :: "bool \<Rightarrow> qevent \<Rightarrow> resizer \<Rightarrow> resizer" where
  "eventFilter obj_is_self event r =
     (if obj_is_self \<and> event = Resize then timer_start 50 r else r)"

text \<open>
  What happens to one widget, in the order in which the event loop handles it: the
  widget is given a new size, upon which Qt delivers a resize event that passes through
  the event filter; some other event is delivered; or a number of milliseconds pass
  without an event for this widget. When the time left on the timer has passed, the
  timer fires once, stops, and \<^verbatim>\<open>resize_terminal\<close> runs.
\<close>

datatype occurrence = Resized nat nat | Delivered qevent | Passes nat

fun occur :: "occurrence \<Rightarrow> resizer \<Rightarrow> resizer" where
  "occur (Resized w h) r = eventFilter True Resize (r\<lparr>size_width := w, size_height := h\<rparr>)"
| "occur (Delivered e) r = eventFilter True e r"
| "occur (Passes d) r =
     (case resize_timer r of
        None \<Rightarrow> r
      | Some t \<Rightarrow> if t \<le> d then resize_terminal (r\<lparr>resize_timer := None\<rparr>)
                  else r\<lparr>resize_timer := Some (t - d)\<rparr>)"

fun occur_all :: "occurrence list \<Rightarrow> resizer \<Rightarrow> resizer" where
  "occur_all [] r = r"
| "occur_all (x # xs) r = occur_all xs (occur x r)"

text \<open>
  A burst of resize events: each entry is the time that passes since the event before
  it, and the new size.
\<close>

fun burst :: "(nat \<times> nat \<times> nat) list \<Rightarrow> occurrence list" where
  "burst [] = []"
| "burst ((gap, w, h) # rest) = Passes gap # Resized w h # burst rest"

section \<open>QTabWidget\<close>

text \<open>
  A tab widget is the ordered list of its tabs, each a reference to a terminal widget
  (its index in the store of widgets) and a label. Qt's \<^verbatim>\<open>widget(i)\<close> returns null
  and \<^verbatim>\<open>removeTab(i)\<close> does nothing when \<open>i\<close> is out of range. The current tab
  is not modelled.
\<close>

type_synonym tabs = "(nat \<times> string) list"

definition in_range :: "tabs \<Rightarrow> int \<Rightarrow> bool" where
  "in_range ts i = (0 \<le> i \<and> i < int (length ts))"

definition widget_at :: "tabs \<Rightarrow> int \<Rightarrow> nat option" where
  "widget_at ts i = (if in_range ts i then Some (fst (ts ! nat i)) else None)"

definition tabText :: "tabs \<Rightarrow> int \<Rightarrow> string" where
  "tabText ts i = (if in_range ts i then snd (ts ! nat i) else [])"

definition removeTab :: "int \<Rightarrow> tabs \<Rightarrow> tabs" where
  "removeTab i ts = (if in_range ts i then take (nat i) ts @ drop (Suc (nat i)) ts else ts)"

definition addTab :: "nat \<Rightarrow> string \<Rightarrow> tabs \<Rightarrow> tabs" where
  "addTab w l ts = ts @ [(w, l)]"

section \<open>TerminalEmulator\<close>

text \<open>
  The main window. \<open>widgets\<close> is the store of every terminal widget constructed so
  far, a widget's reference being its position there. \<open>second_tab_widget\<close> is
  \<open>None\<close> while the second pane is closed. \<open>dialogs\<close> collects the message boxes
  shown. \<open>startup_runs\<close> and \<open>flag_resets\<close> are observation counters that the
  source does not have: the first counts how often a new tab was given the startup
  command, the second how often \<^verbatim>\<open>command_executed\<close> was set back to False.
\<close>

record emulator =
  getcwd :: string
  initial_directory :: pyval
  command :: pyval
  tab_counter :: nat
  command_executed :: bool
  main_tab_widget :: tabs
  second_tab_widget :: "tabs option"
  widgets :: "xterm list"
  dialogs :: "string list"
  startup_runs :: nat
  flag_resets :: nat

datatype pane_ref = MainPane | SecondPane

definition terminate_at :: "nat \<Rightarrow> emulator \<Rightarrow> emulator" where
  "terminate_at w s =
     (if w < length (widgets s) then s\<lparr>widgets := (widgets s)[w := terminate (widgets s ! w)]\<rparr>
      else s)"

text \<open>
  The block that \<^verbatim>\<open>add_terminal_tab\<close> runs for the main pane and again for an
  unknown pane name: take the startup command if it has not been used yet.
\<close>

definition select_command :: "pyval \<Rightarrow> emulator \<Rightarrow> pyval \<times> emulator" where
  "select_command command0 s =
     (if \<not> command_executed s \<and> truthy (command s)
      then (command s, s\<lparr>command_executed := True, startup_runs := startup_runs s + 1\<rparr>)
      else (command0, s))"

definition add_terminal_tab :: "pyval \<Rightarrow> pyval \<Rightarrow> string \<Rightarrow> emulator \<Rightarrow> emulator" where
  "add_terminal_tab directory0 command0 pane0 s =
     (let directory = py_or directory0 (initial_directory s);
          (pane, cmd, s1) =
             (if pane0 = ''main'' then (''main'', select_command command0 s)
              else if pane0 = ''second'' then (''second'', command0, s)
              else (''main'', select_command command0 s));
          s2 = s1\<lparr>tab_counter := tab_counter s1 + 1\<rparr>;
          w = length (widgets s2);
          terminal_widget = apply_settings (XTermWidget (getcwd s2) directory cmd);
          s3 = s2\<lparr>widgets := widgets s2 @ [terminal_widget]\<rparr>;
          tab_label = ''Terminal '' @ str_nat (tab_counter s3)
      in if pane = ''main''
         then s3\<lparr>main_tab_widget := addTab w tab_label (main_tab_widget s3)\<rparr>
         else (case second_tab_widget s3 of
                 Some ts \<Rightarrow> s3\<lparr>second_tab_widget := Some (addTab w tab_label ts)\<rparr>
               | None \<Rightarrow> s3))"

definition create_second_pane :: "emulator \<Rightarrow> emulator" where
  "create_second_pane s = s\<lparr>second_tab_widget := Some []\<rparr>"

definition initialize_double_pane :: "emulator \<Rightarrow> emulator" where
  "initialize_double_pane s =
     (let s1 = (if length (main_tab_widget s) = 0 then add_terminal_tab PNone PNone ''main'' s
                else s)
      in if second_tab_widget s1 = None
         then add_terminal_tab PNone PNone ''second'' (create_second_pane s1)
         else s1)"

definition close_main_tab :: "int \<Rightarrow> emulator \<Rightarrow> emulator" where
  "close_main_tab index s =
     (let s1 = (case widget_at (main_tab_widget s) index of
                  Some w \<Rightarrow> terminate_at w s
                | None \<Rightarrow> s);
          s2 = s1\<lparr>main_tab_widget := removeTab index (main_tab_widget s1)\<rparr>
      in if length (main_tab_widget s2) = 0
         then add_terminal_tab PNone PNone ''main''
                (s2\<lparr>tab_counter := 0, command_executed := False,
                    flag_resets := flag_resets s2 + 1\<rparr>)
         else s2)"

definition move_tab_to_second_pane :: "pane_ref \<Rightarrow> int \<Rightarrow> emulator \<Rightarrow> emulator" where
  "move_tab_to_second_pane tab_widget index s =
     (if tab_widget \<noteq> MainPane
      then s\<lparr>dialogs := dialogs s @
                [''Only tabs from the main pane can be moved to the second pane.'']\<rparr>
      else (case widget_at (main_tab_widget s) index of
              None \<Rightarrow> s
            | Some tab \<Rightarrow>
                (let tab_label = tabText (main_tab_widget s) index;
                     s1 = s\<lparr>main_tab_widget := removeTab index (main_tab_widget s)\<rparr>;
                     s2 = (if second_tab_widget s1 = None then create_second_pane s1 else s1);
                     s3 = s2\<lparr>second_tab_widget :=
                              map_option (addTab tab tab_label) (second_tab_widget s2)\<rparr>
                 in if length (main_tab_widget s3) = 0
                    then add_terminal_tab PNone PNone ''main'' s3
                    else s3)))"

text \<open>
  The loop of \<^verbatim>\<open>close_second_half\<close>: while the second pane has a tab, take its
  first tab out and append it to the main pane.
\<close>

fun move_all_back :: "tabs \<Rightarrow> tabs \<Rightarrow> tabs \<times> tabs" where
  "move_all_back [] mains = ([], mains)"
| "move_all_back ((w, l) # rest) mains = move_all_back rest (addTab w l mains)"

definition close_second_half :: "emulator \<Rightarrow> emulator" where
  "close_second_half s =
     (case second_tab_widget s of
        None \<Rightarrow> s\<lparr>dialogs := dialogs s @ [''Second pane is already closed.'']\<rparr>
      | Some ts \<Rightarrow>
          (let (ts', mains') = move_all_back ts (main_tab_widget s)
           in s\<lparr>main_tab_widget := mains', second_tab_widget := None\<rparr>))"

definition close_second_tab :: "int \<Rightarrow> emulator \<Rightarrow> emulator" where
  "close_second_tab index s =
     (case second_tab_widget s of
        None \<Rightarrow> s\<lparr>dialogs := dialogs s @ [''No tabs to close in the second pane.'']\<rparr>
      | Some ts \<Rightarrow>
          (let s1 = (case widget_at ts index of
                       Some w \<Rightarrow> terminate_at w s
                     | None \<Rightarrow> s);
               ts' = removeTab index ts
           in if length ts' = 0 then s1\<lparr>second_tab_widget := None\<rparr>
              else s1\<lparr>second_tab_widget := Some ts'\<rparr>))"

text \<open>
  The constructor: the fields, then \<^verbatim>\<open>initUI\<close>, which adds the first tab.
  \<open>cwd\<close> is what \<^verbatim>\<open>os.getcwd()\<close> returns.
\<close>

definition TerminalEmulator :: "string \<Rightarrow> pyval \<Rightarrow> pyval \<Rightarrow> emulator" where
  "TerminalEmulator cwd initial_directory0 command0 =
     add_terminal_tab PNone PNone ''main''
       \<lparr>getcwd = cwd, initial_directory = py_or initial_directory0 (PStr cwd),
        command = command0, tab_counter = 0, command_executed = False,
        main_tab_widget = [], second_tab_widget = None, widgets = [], dialogs = [],
        startup_runs = 0, flag_resets = 0\<rparr>"

subsection \<open>Operation sequences\<close>

text \<open>
  The event loop runs one callback to completion before the next, so a run of the
  window is a sequence of the operations that create, close and move tabs. A message
  from another instance ends in \<^verbatim>\<open>add_terminal_tab\<close> for the main pane.
  Renaming a tab and changing the settings neither add nor remove nor move a tab and
  are left out, as is \<^verbatim>\<open>close_tab\<close>, which no signal is connected to.
\<close>

datatype op =
    AddTerminalTab pyval pyval string
  | CloseMainTab int
  | CloseSecondTab int
  | MoveTabToSecondPane pane_ref int
  | InitializeDoublePane
  | CloseSecondHalf

fun step :: "op \<Rightarrow> emulator \<Rightarrow> emulator" where
  "step (AddTerminalTab d c p) s = add_terminal_tab d c p s"
| "step (CloseMainTab i) s = close_main_tab i s"
| "step (CloseSecondTab i) s = close_second_tab i s"
| "step (MoveTabToSecondPane r i) s = move_tab_to_second_pane r i s"
| "step InitializeDoublePane s = initialize_double_pane s"
| "step CloseSecondHalf s = close_second_half s"

fun run :: "op list \<Rightarrow> emulator \<Rightarrow> emulator" where
  "run [] s = s"
| "run (x # xs) s = run xs (step x s)"

subsection \<open>What the panes hold\<close>

text \<open>
  The tabs of the second pane (none while it is closed), the widget references held by
  the two panes together, and the number of tab slots over both panes that hold a
  given widget. A state is well formed when no widget sits in two slots and every
  reference points into the store.
\<close>

definition second_tabs :: "emulator \<Rightarrow> tabs" where
  "second_tabs s = (case second_tab_widget s of None \<Rightarrow> [] | Some ts \<Rightarrow> ts)"

definition refs :: "emulator \<Rightarrow> nat list" where
  "refs s = map fst (main_tab_widget s) @ map fst (second_tabs s)"

definition memberships :: "emulator \<Rightarrow> nat \<Rightarrow> nat" where
  "memberships s w = count_list (refs s) w"

definition wf :: "emulator \<Rightarrow> bool" where
  "wf s = (distinct (refs s) \<and> list_all (\<lambda>w. w < length (widgets s)) (refs s))"

text \<open>The label that the next new tab gets.\<close>

definition new_label :: "emulator \<Rightarrow> string" where
  "new_label s = ''Terminal '' @ str_nat (tab_counter s + 1)"

subsection \<open>Live terminals and their tabs\<close>

text \<open>
  No widget whose process is running is outside both panes. The context menu offers
  Add Tab for the second pane only on the second pane's own tab bar, so a tab is asked
  for there only while that pane exists; a sequence of operations is admissible when
  it respects this.
\<close>

definition no_orphans :: "emulator \<Rightarrow> bool" where
  "no_orphans s =
     list_all (\<lambda>w. process_running (widgets s ! w) \<longrightarrow> w \<in> set (refs s))
       [0..<length (widgets s)]"

fun enabled :: "op \<Rightarrow> emulator \<Rightarrow> bool" where
  "enabled (AddTerminalTab d c p) s = (p \<noteq> ''second'' \<or> second_tab_widget s \<noteq> None)"
| "enabled (CloseMainTab i) s = True"
| "enabled (CloseSecondTab i) s = True"
| "enabled (MoveTabToSecondPane r i) s = True"
| "enabled InitializeDoublePane s = True"
| "enabled CloseSecondHalf s = True"

fun admissible :: "op list \<Rightarrow> emulator \<Rightarrow> bool" where
  "admissible [] s = True"
| "admissible (x # xs) s = (enabled x s \<and> admissible xs (step x s))"

text \<open>
  Every tab, in either pane, refers to a widget of the store whose process is running.
\<close>

definition tabs_running :: "emulator \<Rightarrow> bool" where
  "tabs_running s =
     list_all (\<lambda>w. w < length (widgets s) \<and> process_running (widgets s ! w)) (refs s)"

section \<open>Library functions\<close>

text \<open>
  The parts of the Python library that the instance protocol calls, for text of code
  points below 256. \<open>OutsideModel\<close> marks an input on which the model makes no
  statement; \<open>Uncaught\<close> is an exception that no handler of the program catches.
\<close>

datatype fault = Uncaught string | OutsideModel

definition is_digit :: "char \<Rightarrow> bool" where
  "is_digit c = (48 \<le> (of_char c :: nat) \<and> (of_char c :: nat) \<le> 57)"

definition digit_val :: "char \<Rightarrow> nat" where
  "digit_val c = of_char c - 48"

subsection \<open>\<^verbatim>\<open>int(text)\<close>\<close>

text \<open>
  Surrounding whitespace is dropped, one sign is allowed, and the digits may be
  separated by single underscores. \<open>None\<close> stands for \<^verbatim>\<open>ValueError\<close>.
\<close>

definition py_isspace :: "char \<Rightarrow> bool" where
  "py_isspace c = (let n = (of_char c :: nat) in (9 \<le> n \<and> n \<le> 13) \<or> (28 \<le> n \<and> n \<le> 32))"

definition py_strip :: "string \<Rightarrow> string" where
  "py_strip s = rev (dropWhile py_isspace (rev (dropWhile py_isspace s)))"

fun parse_digits :: "bool \<Rightarrow> nat \<Rightarrow> string \<Rightarrow> nat option" where
  "parse_digits prev acc [] = (if prev then Some acc else None)"
| "parse_digits prev acc (c # cs) =
     (if is_digit c then parse_digits True (10 * acc + digit_val c) cs
      else if c = CHR ''_'' \<and> prev then parse_digits False acc cs
      else None)"

definition py_int :: "string \<Rightarrow> int option" where
  "py_int s =
     (case py_strip s of
        [] \<Rightarrow> None
      | c # cs \<Rightarrow>
          if c = CHR ''-'' then map_option (\<lambda>n. - int n) (parse_digits False 0 cs)
          else if c = CHR ''+'' then map_option int (parse_digits False 0 cs)
          else map_option int (parse_digits False 0 (c # cs)))"

text \<open>
  \<^verbatim>\<open>bytes.decode('utf-8')\<close>, for ASCII bytes only: they decode to themselves.
  Other bytes are outside the model.
\<close>

definition is_ascii :: "string \<Rightarrow> bool" where
  "is_ascii s = list_all (\<lambda>c. (of_char c :: nat) < 128) s"

definition decode_utf8 :: "string \<Rightarrow> fault + string" where
  "decode_utf8 bs = (if is_ascii bs then Inr bs else Inl OutsideModel)"

subsection \<open>\<^verbatim>\<open>json.dumps\<close> of the message\<close>

definition hex_digit :: "nat \<Rightarrow> char" where
  "hex_digit d = ''0123456789abcdef'' ! d"

definition escape_char :: "char \<Rightarrow> string" where
  "escape_char c =
     (if c = CHR 0x22 then [CHR 0x5C, CHR 0x22]
      else if c = CHR 0x5C then [CHR 0x5C, CHR 0x5C]
      else if c = CHR 0x0A then [CHR 0x5C, CHR ''n'']
      else if c = CHR 0x0D then [CHR 0x5C, CHR ''r'']
      else if c = CHR 0x09 then [CHR 0x5C, CHR ''t'']
      else if c = CHR 0x08 then [CHR 0x5C, CHR ''b'']
      else if c = CHR 0x0C then [CHR 0x5C, CHR ''f'']
      else if 32 \<le> (of_char c :: nat) \<and> (of_char c :: nat) \<le> 126 then [c]
      else [CHR 0x5C, CHR ''u'', CHR ''0'', CHR ''0'',
            hex_digit ((of_char c :: nat) div 16), hex_digit ((of_char c :: nat) mod 16)])"

definition json_dumps_str :: "string \<Rightarrow> string" where
  "json_dumps_str s = [CHR 0x22] @ concat (map escape_char s) @ [CHR 0x22]"

definition json_dumps_opt :: "string option \<Rightarrow> string" where
  "json_dumps_opt v = (case v of None \<Rightarrow> ''null'' | Some s \<Rightarrow> json_dumps_str s)"

definition json_dumps_message :: "string option \<Rightarrow> string option \<Rightarrow> string" where
  \<open>json_dumps_message folder0 command0 =
     ''{"action": "open_new_tab", "folder": '' @ json_dumps_opt folder0 @
     '', "command": '' @ json_dumps_opt command0 @ ''}''\<close>

text \<open>An optional text as a Python value.\<close>

definition py_opt :: "string option \<Rightarrow> pyval" where
  "py_opt v = (case v of None \<Rightarrow> PNone | Some s \<Rightarrow> PStr s)"

subsection \<open>\<^verbatim>\<open>json.loads\<close>\<close>

text \<open>
  The scanner of the standard decoder: whitespace is blank, tab, newline and carriage
  return; a value is a string, an object, an array, a literal or a number. Numbers
  with a fraction or an exponent, the literals NaN and Infinity, and escapes of code
  points from 256 on are outside the model, as is nesting deeper than a hundred levels
  (deep nesting ends in \<^verbatim>\<open>RecursionError\<close>). The first argument of the
  scanner bounds the number of calls, for which the text's length is always enough;
  the second is the nesting depth still allowed.
\<close>

datatype jfail = JSONDecodeError | JOutside

definition is_ws :: "char \<Rightarrow> bool" where
  "is_ws c = (c = CHR '' '' \<or> c = CHR 0x09 \<or> c = CHR 0x0A \<or> c = CHR 0x0D)"

definition skip_ws :: "string \<Rightarrow> string" where
  "skip_ws s = dropWhile is_ws s"

definition hexval :: "char \<Rightarrow> nat option" where
  "hexval c =
     (let n = (of_char c :: nat) in
      if 48 \<le> n \<and> n \<le> 57 then Some (n - 48)
      else if 97 \<le> n \<and> n \<le> 102 then Some (n - 87)
      else if 65 \<le> n \<and> n \<le> 70 then Some (n - 55)
      else None)"

definition unescape :: "char \<Rightarrow> char option" where
  "unescape e =
     (if e = CHR 0x22 then Some (CHR 0x22)
      else if e = CHR 0x5C then Some (CHR 0x5C)
      else if e = CHR ''/'' then Some (CHR ''/'')
      else if e = CHR ''b'' then Some (CHR 0x08)
      else if e = CHR ''f'' then Some (CHR 0x0C)
      else if e = CHR ''n'' then Some (CHR 0x0A)
      else if e = CHR ''r'' then Some (CHR 0x0D)
      else if e = CHR ''t'' then Some (CHR 0x09)
      else None)"

definition hex4 :: "char \<Rightarrow> char \<Rightarrow> char \<Rightarrow> char \<Rightarrow> nat option" where
  "hex4 a b c d =
     (case (hexval a, hexval b, hexval c, hexval d) of
        (Some x, Some y, Some z, Some w) \<Rightarrow> Some (((x * 16 + y) * 16 + z) * 16 + w)
      | _ \<Rightarrow> None)"

text \<open>The text after an opening quote, up to the closing one; \<open>acc\<close> is reversed.\<close>

fun scanstring :: "string \<Rightarrow> string \<Rightarrow> jfail + (string \<times> string)" where
  "scanstring [] acc = Inl JSONDecodeError"
| "scanstring (c # cs) acc =
     (if c = CHR 0x22 then Inr (rev acc, cs)
      else if c = CHR 0x5C then
        (case cs of
           [] \<Rightarrow> Inl JSONDecodeError
         | e # r \<Rightarrow>
             if e = CHR ''u'' then
               (case r of
                  a # b # c' # d # r' \<Rightarrow>
                    (case hex4 a b c' d of
                       None \<Rightarrow> Inl JSONDecodeError
                     | Some v \<Rightarrow> if v < 256 then scanstring r' (char_of v # acc)
                                else Inl JOutside)
                | _ \<Rightarrow> Inl JSONDecodeError)
             else (case unescape e of
                     None \<Rightarrow> Inl JSONDecodeError
                   | Some x \<Rightarrow> scanstring r (x # acc)))
      else if (of_char c :: nat) < 32 then Inl JSONDecodeError
      else scanstring cs (c # acc))"

definition digits_value :: "string \<Rightarrow> nat" where
  "digits_value ds = foldl (\<lambda>acc c. 10 * acc + digit_val c) 0 ds"

definition starts_fraction :: "string \<Rightarrow> bool" where
  "starts_fraction r = (case r of c # d # _ \<Rightarrow> c = CHR ''.'' \<and> is_digit d | _ \<Rightarrow> False)"

definition starts_exponent :: "string \<Rightarrow> bool" where
  "starts_exponent r =
     (case r of
        c # d # r' \<Rightarrow>
          (c = CHR ''e'' \<or> c = CHR ''E'') \<and>
          (is_digit d \<or>
           ((d = CHR ''-'' \<or> d = CHR ''+'') \<and> (case r' of x # _ \<Rightarrow> is_digit x | [] \<Rightarrow> False)))
      | _ \<Rightarrow> False)"

text \<open>A number at the start of the text; \<open>None\<close> when there is none.\<close>

definition match_number :: "string \<Rightarrow> (jfail + (pyval \<times> string)) option" where
  "match_number s =
     (let (neg, s1) = (case s of c # t \<Rightarrow> if c = CHR ''-'' then (True, t) else (False, s)
                                | [] \<Rightarrow> (False, s))
      in case s1 of
           [] \<Rightarrow> None
         | c # t \<Rightarrow>
             if \<not> is_digit c then None
             else (let (ds, r) = (if c = CHR ''0'' then ([c], t)
                                   else (c # takeWhile is_digit t, dropWhile is_digit t))
                   in if starts_fraction r \<or> starts_exponent r \<or> 4300 < length ds
                      then Some (Inl JOutside)
                      else Some (Inr (PInt (if neg then - int (digits_value ds)
                                           else int (digits_value ds)), r))))"

fun scan_once :: "nat \<Rightarrow> nat \<Rightarrow> string \<Rightarrow> jfail + (pyval \<times> string)"
  and parse_object ::
    "nat \<Rightarrow> nat \<Rightarrow> (string \<times> pyval) list \<Rightarrow> string \<Rightarrow> jfail + (pyval \<times> string)"
  and parse_array :: "nat \<Rightarrow> nat \<Rightarrow> pyval list \<Rightarrow> string \<Rightarrow> jfail + (pyval \<times> string)"
where
  "scan_once 0 d s = Inl JOutside"
| "scan_once (Suc n) d [] = Inl JSONDecodeError"
| "scan_once (Suc n) d (c # cs) =
     (if c = CHR 0x22 then
        (case scanstring cs [] of Inl e \<Rightarrow> Inl e | Inr (t, r) \<Rightarrow> Inr (PStr t, r))
      else if c = CHR ''{'' then
        (if d = 0 then Inl JOutside
         else (case skip_ws cs of
                 [] \<Rightarrow> Inl JSONDecodeError
               | x # r \<Rightarrow> if x = CHR ''}'' then Inr (PDict [], r)
                          else parse_object n (d - 1) [] (x # r)))
      else if c = CHR ''['' then
        (if d = 0 then Inl JOutside
         else (case skip_ws cs of
                 [] \<Rightarrow> Inl JSONDecodeError
               | x # r \<Rightarrow> if x = CHR '']'' then Inr (PList [], r)
                          else parse_array n (d - 1) [] (x # r)))
      else if c = CHR ''n'' \<and> take 3 cs = ''ull'' then Inr (PNone, drop 3 cs)
      else if c = CHR ''t'' \<and> take 3 cs = ''rue'' then Inr (PBool True, drop 3 cs)
      else if c = CHR ''f'' \<and> take 4 cs = ''alse'' then Inr (PBool False, drop 4 cs)
      else if c = CHR ''N'' \<and> take 2 cs = ''aN'' then Inl JOutside
      else if c = CHR ''I'' \<and> take 7 cs = ''nfinity'' then Inl JOutside
      else if c = CHR ''-'' \<and> take 8 cs = ''Infinity'' then Inl JOutside
      else (case match_number (c # cs) of None \<Rightarrow> Inl JSONDecodeError | Some res \<Rightarrow> res))"
| "parse_object 0 d acc s = Inl JOutside"
| "parse_object (Suc n) d acc [] = Inl JSONDecodeError"
| "parse_object (Suc n) d acc (c # cs) =
     (if c \<noteq> CHR 0x22 then Inl JSONDecodeError
      else (case scanstring cs [] of
              Inl e \<Rightarrow> Inl e
            | Inr (key, r1) \<Rightarrow>
                (case skip_ws r1 of
                   [] \<Rightarrow> Inl JSONDecodeError
                 | x # r2 \<Rightarrow>
                     if x \<noteq> CHR '':'' then Inl JSONDecodeError
                     else (case scan_once n d (skip_ws r2) of
                             Inl e \<Rightarrow> Inl e
                           | Inr (v, r3) \<Rightarrow>
                               (case skip_ws r3 of
                                  [] \<Rightarrow> Inl JSONDecodeError
                                | y # r4 \<Rightarrow>
                                    if y = CHR ''}'' then Inr (PDict (acc @ [(key, v)]), r4)
                                    else if y = CHR '','' then
                                      parse_object n d (acc @ [(key, v)]) (skip_ws r4)
                                    else Inl JSONDecodeError)))))"
| "parse_array 0 d acc s = Inl JOutside"
| "parse_array (Suc n) d acc s =
     (case scan_once n d s of
        Inl e \<Rightarrow> Inl e
      | Inr (v, r) \<Rightarrow>
          (case skip_ws r of
             [] \<Rightarrow> Inl JSONDecodeError
           | y # r' \<Rightarrow>
               if y = CHR '']'' then Inr (PList (acc @ [v]), r')
               else if y = CHR '','' then parse_array n d (acc @ [v]) (skip_ws r')
               else Inl JSONDecodeError))"

text \<open>
  \<^verbatim>\<open>json.loads\<close>: one value, with whitespace allowed before and after it and
  nothing else.
\<close>

definition json_loads :: "string \<Rightarrow> jfail + pyval" where
  "json_loads s =
     (case scan_once (Suc (length s)) 100 (skip_ws s) of
        Inl e \<Rightarrow> Inl e
      | Inr (v, r) \<Rightarrow> if skip_ws r = [] then Inr v else Inl JSONDecodeError)"

section \<open>The single-instance protocol\<close>

subsection \<open>The second instance: \<^verbatim>\<open>send_message\<close>\<close>

text \<open>
  The parsed command line, as far as the message uses it, and what the environment
  decides: whether \<^verbatim>\<open>listen\<close> succeeded, whether the connection was made within
  the second allowed, and whether the bytes were written within the second allowed.
  The source does not look at the last one.
\<close>

record arguments =
  arg_new :: bool
  arg_folder :: "string option"
  arg_command :: "string option"

record client_env =
  listen_ok :: bool
  connect_ok :: bool
  write_ok :: bool

text \<open>\<^verbatim>\<open>f"{length:08}"\<close>: the decimal digits, padded with zeros to eight.\<close>

definition format08 :: "nat \<Rightarrow> string" where
  "format08 n = replicate (8 - length (str_nat n)) (CHR ''0'') @ str_nat n"

definition none_if_empty :: "string option \<Rightarrow> string option" where
  "none_if_empty v = (case v of None \<Rightarrow> None | Some s \<Rightarrow> if s = [] then None else Some s)"

definition encode_message :: "arguments \<Rightarrow> string" where
  "encode_message a =
     (let message_json = json_dumps_message (none_if_empty (arg_folder a))
                           (none_if_empty (arg_command a));
          length0 = length message_json
      in format08 length0 @ message_json)"

text \<open>The dialogs shown and the bytes handed to the socket.\<close>

definition send_message :: "client_env \<Rightarrow> arguments \<Rightarrow> string list \<times> string" where
  "send_message env a =
     (if \<not> connect_ok env then ([''Unable to connect to the running instance.''], [])
      else ([], encode_message a))"

text \<open>
  Start-up without \<^verbatim>\<open>--new\<close>: the constructor of the application either becomes
  the primary instance and goes on to build the window, or sends its message and
  leaves through \<^verbatim>\<open>sys.exit(0)\<close>.
\<close>

datatype role = RunsWindow | Exited int

record startup =
  st_role :: role
  st_dialogs :: "string list"
  st_written :: string

definition SingleInstanceApplication :: "client_env \<Rightarrow> arguments \<Rightarrow> startup" where
  "SingleInstanceApplication env a =
     (if listen_ok env
      then \<lparr>st_role = RunsWindow, st_dialogs = [], st_written = []\<rparr>
      else (let (ds, bs) = send_message env a
            in \<lparr>st_role = Exited 0, st_dialogs = ds, st_written = bs\<rparr>))"

text \<open>
  \<^verbatim>\<open>main\<close>: with \<^verbatim>\<open>--new\<close> a separate instance is started without the
  single-instance check.
\<close>

definition main :: "client_env \<Rightarrow> arguments \<Rightarrow> startup" where
  "main env a =
     (if arg_new a then \<lparr>st_role = RunsWindow, st_dialogs = [], st_written = []\<rparr>
      else SingleInstanceApplication env a)"

subsection \<open>The primary instance: \<^verbatim>\<open>handle_new_instance_message\<close>\<close>

text \<open>
  \<^verbatim>\<open>dict.get\<close> with default None; a repeated key keeps its last value.
  \<open>isdir\<close> is \<^verbatim>\<open>os.path.isdir\<close>, decided by the file system; on a list or a
  dict it raises \<^verbatim>\<open>TypeError\<close>. Raising the window is not modelled.
\<close>

definition dict_get :: "(string \<times> pyval) list \<Rightarrow> string \<Rightarrow> pyval" where
  "dict_get kvs k = (case map_of (rev kvs) k of None \<Rightarrow> PNone | Some v \<Rightarrow> v)"

definition py_isdir :: "(pyval \<Rightarrow> bool) \<Rightarrow> pyval \<Rightarrow> fault + bool" where
  "py_isdir isdir v =
     (case v of
        PList xs \<Rightarrow> Inl (Uncaught ''TypeError'')
      | PDict kvs \<Rightarrow> Inl (Uncaught ''TypeError'')
      | _ \<Rightarrow> Inr (isdir v))"

definition handle_new_instance_message ::
    "(pyval \<Rightarrow> bool) \<Rightarrow> emulator \<Rightarrow> string \<Rightarrow> fault + emulator" where
  "handle_new_instance_message isdir w message =
     (case json_loads message of
        Inl JSONDecodeError \<Rightarrow> Inr (add_terminal_tab PNone PNone ''main'' w)
      | Inl JOutside \<Rightarrow> Inl OutsideModel
      | Inr data \<Rightarrow>
          (case data of
             PDict kvs \<Rightarrow>
               (let action = dict_get kvs ''action'';
                    folder = dict_get kvs ''folder'';
                    command0 = dict_get kvs ''command''
                in if action = PStr ''open_new_tab'' then
                     (if truthy folder then
                        (case py_isdir isdir folder of
                           Inl f \<Rightarrow> Inl f
                         | Inr True \<Rightarrow> Inr (add_terminal_tab folder command0 ''main'' w)
                         | Inr False \<Rightarrow> Inr (add_terminal_tab PNone command0 ''main'' w))
                      else Inr (add_terminal_tab PNone command0 ''main'' w))
                   else Inr w)
           | _ \<Rightarrow> Inl (Uncaught ''AttributeError'')))"

subsection \<open>The primary instance: \<^verbatim>\<open>read_socket\<close>\<close>

text \<open>
  A connection is the bytes that have arrived and are not read yet, and whether it is
  still open. The application holds the main window once \<^verbatim>\<open>main\<close> has assigned
  it, and the dialogs shown. \<^verbatim>\<open>read\<close> with a negative length returns nothing.
\<close>

record connection =
  available :: string
  connected :: bool

record application =
  main_window :: "emulator option"
  app_dialogs :: "string list"

definition disconnectFromServer :: "connection \<Rightarrow> connection" where
  "disconnectFromServer k = k\<lparr>connected := False\<rparr>"

definition read_socket ::
    "(pyval \<Rightarrow> bool) \<Rightarrow> application \<Rightarrow> connection \<Rightarrow> fault + (application \<times> connection)" where
  "read_socket isdir app k =
     (if length (available k) < 8 then Inr (app, k)
      else
        (let length_data = take 8 (available k);
             k1 = k\<lparr>available := drop 8 (available k)\<rparr>
         in case decode_utf8 length_data of
              Inl f \<Rightarrow> Inl f
            | Inr text \<Rightarrow>
                (case py_int text of
                   None \<Rightarrow>
                     Inr (app\<lparr>app_dialogs := app_dialogs app @
                                  [''Received invalid message length.'']\<rparr>,
                          disconnectFromServer k1)
                 | Some length0 \<Rightarrow>
                     if int (length (available k1)) < length0 then Inr (app, k1)
                     else
                       (let n = (if length0 < 0 then 0 else nat length0);
                            message_data = take n (available k1);
                            k2 = k1\<lparr>available := drop n (available k1)\<rparr>
                        in if message_data \<noteq> [] then
                             (case decode_utf8 message_data of
                                Inl f \<Rightarrow> Inl f
                              | Inr message \<Rightarrow>
                                  (case main_window app of
                                     None \<Rightarrow> Inr (app, disconnectFromServer k2)
                                   | Some w \<Rightarrow>
                                       (case handle_new_instance_message isdir w message of
                                          Inl f \<Rightarrow> Inl f
                                        | Inr w' \<Rightarrow>
                                            Inr (app\<lparr>main_window := Some w'\<rparr>,
                                                 disconnectFromServer k2))))
                           else Inr (app, disconnectFromServer k2)))))"

text \<open>
  Bytes arrive on a connection in chunks; each arrival raises \<^verbatim>\<open>readyRead\<close> and
  so calls \<^verbatim>\<open>read_socket\<close> once. Nothing is read from a closed connection.
\<close>

fun deliver ::
    "(pyval \<Rightarrow> bool) \<Rightarrow> string list \<Rightarrow> application \<times> connection \<Rightarrow>
       fault + (application \<times> connection)" where
  "deliver isdir [] (app, k) = Inr (app, k)"
| "deliver isdir (chunk # rest) (app, k) =
     (if \<not> connected k \<or> chunk = [] then deliver isdir rest (app, k)
      else (case read_socket isdir app (k\<lparr>available := available k @ chunk\<rparr>) of
              Inl f \<Rightarrow> Inl f
            | Inr (app', k') \<Rightarrow> deliver isdir rest (app', k')))"

text \<open>A fresh connection to a primary instance whose window is \<open>w\<close>.\<close>

definition accept_connection :: "emulator \<Rightarrow> application \<times> connection" where
  "accept_connection w =
     (\<lparr>main_window = Some w, app_dialogs = []\<rparr>, \<lparr>available = [], connected = True\<rparr>)"

section \<open>Basic facts\<close>

lemma str_nat_1: "str_nat 1 = ''1''" "str_nat (Suc 0) = ''1''"
  by code_simp+

lemma select_command_fields [simp]:
  "main_tab_widget (snd (select_command c s)) = main_tab_widget s"
  "second_tab_widget (snd (select_command c s)) = second_tab_widget s"
  "widgets (snd (select_command c s)) = widgets s"
  "tab_counter (snd (select_command c s)) = tab_counter s"
  "dialogs (snd (select_command c s)) = dialogs s"
  "getcwd (snd (select_command c s)) = getcwd s"
  "command (snd (select_command c s)) = command s"
  "initial_directory (snd (select_command c s)) = initial_directory s"
  "flag_resets (snd (select_command c s)) = flag_resets s"
  by (simp_all add: select_command_def)

lemma main_add_terminal_tab:
  "main_tab_widget (add_terminal_tab d c p s) =
     (if p = ''second'' then main_tab_widget s
      else main_tab_widget s @ [(length (widgets s), new_label s)])"
  by (simp add: add_terminal_tab_def Let_def addTab_def split_beta new_label_def
        split: option.splits)

lemma second_add_terminal_tab:
  "second_tab_widget (add_terminal_tab d c p s) =
     (if p = ''second''
      then map_option (\<lambda>ts. ts @ [(length (widgets s), new_label s)]) (second_tab_widget s)
      else second_tab_widget s)"
  by (simp add: add_terminal_tab_def Let_def addTab_def split_beta new_label_def
        split: option.splits)

lemma widgets_add_terminal_tab:
  "widgets (add_terminal_tab d c p s) =
     widgets s @ [apply_settings (XTermWidget (getcwd s) (py_or d (initial_directory s))
        (if p = ''second'' then c else fst (select_command c s)))]"
  by (simp add: add_terminal_tab_def Let_def addTab_def split_beta split: option.splits)

lemma length_widgets_add_terminal_tab [simp]:
  "length (widgets (add_terminal_tab d c p s)) = Suc (length (widgets s))"
  by (simp add: widgets_add_terminal_tab)

lemma widgets_terminate_at [simp]: "length (widgets (terminate_at w s)) = length (widgets s)"
  by (simp add: terminate_at_def)

lemma terminate_at_fields [simp]:
  "main_tab_widget (terminate_at w s) = main_tab_widget s"
  "second_tab_widget (terminate_at w s) = second_tab_widget s"
  "tab_counter (terminate_at w s) = tab_counter s"
  "command_executed (terminate_at w s) = command_executed s"
  "command (terminate_at w s) = command s"
  "startup_runs (terminate_at w s) = startup_runs s"
  "flag_resets (terminate_at w s) = flag_resets s"
  by (simp_all add: terminate_at_def)

lemma mset_removeTab:
  "in_range ts i \<Longrightarrow> mset ts = add_mset (ts ! nat i) (mset (removeTab i ts))"
proof -
  assume r: "in_range ts i"
  then have n: "nat i < length ts" by (auto simp: in_range_def)
  have "ts = take (nat i) ts @ (ts ! nat i) # drop (Suc (nat i)) ts"
    using n by (rule id_take_nth_drop)
  then have "mset ts = mset (take (nat i) ts @ (ts ! nat i) # drop (Suc (nat i)) ts)"
    by simp
  then show ?thesis using r by (simp add: removeTab_def)
qed

lemma set_removeTab: "set (removeTab i ts) \<subseteq> set ts"
  by (auto simp: removeTab_def dest: in_set_takeD in_set_dropD)

lemma length_removeTab:
  "length (removeTab i ts) = (if in_range ts i then length ts - 1 else length ts)"
  by (auto simp: removeTab_def in_range_def)

lemma move_all_back_eq: "move_all_back ts ms = ([], ms @ ts)"
  by (induction ts ms rule: move_all_back.induct) (simp_all add: addTab_def)

lemma TerminalEmulator_main: "main_tab_widget (TerminalEmulator cwd d c) = [(0, ''Terminal 1'')]"
  by (simp add: TerminalEmulator_def main_add_terminal_tab new_label_def str_nat_1)

lemma TerminalEmulator_widgets: "length (widgets (TerminalEmulator cwd d c)) = 1"
  by (simp add: TerminalEmulator_def)

section \<open>The main pane keeps a tab\<close>

lemma step_main_nonempty:
  "main_tab_widget s \<noteq> [] \<Longrightarrow> main_tab_widget (step x s) \<noteq> []"
proof (cases x)
  case (AddTerminalTab d c p)
  assume "main_tab_widget s \<noteq> []"
  then show ?thesis using AddTerminalTab by (simp add: main_add_terminal_tab)
next
  case (CloseMainTab i)
  show ?thesis using CloseMainTab
    by (simp add: close_main_tab_def Let_def main_add_terminal_tab)
next
  case (CloseSecondTab i)
  assume "main_tab_widget s \<noteq> []"
  then show ?thesis using CloseSecondTab
    by (simp add: close_second_tab_def Let_def split: option.splits)
next
  case (MoveTabToSecondPane r i)
  assume "main_tab_widget s \<noteq> []"
  then show ?thesis using MoveTabToSecondPane
    by (simp add: move_tab_to_second_pane_def Let_def main_add_terminal_tab
          create_second_pane_def split: option.splits)
next
  case InitializeDoublePane
  assume "main_tab_widget s \<noteq> []"
  then show ?thesis using InitializeDoublePane
    by (simp add: initialize_double_pane_def Let_def main_add_terminal_tab
          create_second_pane_def)
next
  case CloseSecondHalf
  assume "main_tab_widget s \<noteq> []"
  then show ?thesis using CloseSecondHalf
    by (simp add: close_second_half_def move_all_back_eq split: option.splits)
qed

lemma run_main_nonempty:
  "main_tab_widget s \<noteq> [] \<Longrightarrow> main_tab_widget (run xs s) \<noteq> []"
  by (induction xs arbitrary: s) (simp_all add: step_main_nonempty)

lemma close_last_main:
  assumes "length (main_tab_widget s) = 1"
  shows "main_tab_widget (close_main_tab 0 s) = [(length (widgets s), ''Terminal 1'')]"
proof -
  have r: "in_range (main_tab_widget s) 0" using assms by (simp add: in_range_def)
  then have "removeTab 0 (main_tab_widget s) = []"
    using assms by (simp add: removeTab_def)
  then show ?thesis
    by (simp add: close_main_tab_def Let_def main_add_terminal_tab new_label_def str_nat_1
          split: option.splits)
qed

section \<open>Closing the second half\<close>

lemma close_second_half_open:
  "second_tab_widget s = Some ts \<Longrightarrow>
     main_tab_widget (close_second_half s) = main_tab_widget s @ ts \<and>
     second_tab_widget (close_second_half s) = None"
  by (simp add: close_second_half_def move_all_back_eq)

lemma initialize_double_pane_closed:
  "main_tab_widget s \<noteq> [] \<Longrightarrow> second_tab_widget s = None \<Longrightarrow>
     main_tab_widget (initialize_double_pane s) = main_tab_widget s \<and>
     second_tab_widget (initialize_double_pane s) = Some [(length (widgets s), new_label s)]"
  by (simp add: initialize_double_pane_def Let_def create_second_pane_def
        main_add_terminal_tab second_add_terminal_tab new_label_def)

lemma closed_once_main:
  "main_tab_widget (close_main_tab 0 (TerminalEmulator ''/home'' PNone PNone)) = [(1, ''Terminal 1'')]"
  using close_last_main [of "TerminalEmulator ''/home'' PNone PNone"]
  by (simp add: TerminalEmulator_main TerminalEmulator_widgets)

lemma closed_once_second:
  "second_tab_widget (close_main_tab 0 (TerminalEmulator ''/home'' PNone PNone)) = None"
  by (simp add: close_main_tab_def Let_def TerminalEmulator_def second_add_terminal_tab
        split: option.splits)

lemma closed_once_widgets:
  "length (widgets (close_main_tab 0 (TerminalEmulator ''/home'' PNone PNone))) = 2"
  by (simp add: close_main_tab_def Let_def TerminalEmulator_main TerminalEmulator_widgets
        removeTab_def in_range_def split: option.splits)

lemma tab_counter_add_terminal_tab [simp]:
  "tab_counter (add_terminal_tab d c p s) = tab_counter s + 1"
  by (simp add: add_terminal_tab_def Let_def split_beta split: option.splits)

lemma closed_once_counter:
  "tab_counter (close_main_tab 0 (TerminalEmulator ''/home'' PNone PNone)) = 1"
  by (simp add: close_main_tab_def Let_def TerminalEmulator_main removeTab_def in_range_def
        split: option.splits)

lemma str_nat_2: "str_nat 2 = ''2''" "str_nat (Suc (Suc 0)) = ''2''"
  by code_simp+

lemma opened_after_close:
  "main_tab_widget (initialize_double_pane (close_main_tab 0 (TerminalEmulator ''/home'' PNone PNone)))
     = [(1, ''Terminal 1'')] \<and>
   second_tab_widget (initialize_double_pane (close_main_tab 0 (TerminalEmulator ''/home'' PNone PNone)))
     = Some [(2, ''Terminal 2'')]"
  using initialize_double_pane_closed [of "close_main_tab 0 (TerminalEmulator ''/home'' PNone PNone)"]
  by (simp add: closed_once_main closed_once_second closed_once_widgets closed_once_counter
        new_label_def str_nat_2)

text \<open>
  Claim C6. When the second pane is open with tabs \<open>ts\<close>, closing the second half
  leaves the main pane with its own tabs followed by \<open>ts\<close> in their order and the
  second pane gone. In particular, from a main pane holding the single tab \<open>t\<close>,
  opening the dual pane and closing the second half again leaves the main pane with
  \<open>t\<close> followed by the tab that the opening created, and no second pane.
\<close>

theorem close_second_half_appends:
  "(second_tab_widget s = Some ts \<longrightarrow>
      main_tab_widget (close_second_half s) = main_tab_widget s @ ts \<and>
      second_tab_widget (close_second_half s) = None) \<and>
   (main_tab_widget s = [t] \<and> second_tab_widget s = None \<longrightarrow>
      main_tab_widget (close_second_half (initialize_double_pane s)) =
        [t, (length (widgets s), new_label s)] \<and>
      second_tab_widget (close_second_half (initialize_double_pane s)) = None)"
proof (intro conjI impI)
  assume "second_tab_widget s = Some ts"
  then show "main_tab_widget (close_second_half s) = main_tab_widget s @ ts"
    and "second_tab_widget (close_second_half s) = None"
    by (simp_all add: close_second_half_open)
next
  assume h: "main_tab_widget s = [t] \<and> second_tab_widget s = None"
  then have "main_tab_widget (initialize_double_pane s) = [t] \<and>
     second_tab_widget (initialize_double_pane s) = Some [(length (widgets s), new_label s)]"
    using initialize_double_pane_closed [of s] by simp
  then show "main_tab_widget (close_second_half (initialize_double_pane s)) =
        [t, (length (widgets s), new_label s)]"
    and "second_tab_widget (close_second_half (initialize_double_pane s)) = None"
    using close_second_half_open [of "initialize_double_pane s"] by simp_all
qed

theorem close_second_half_appends_witness:
  "second_tab_widget (run [CloseMainTab 0, InitializeDoublePane]
       (TerminalEmulator ''/home'' PNone PNone)) = Some [(2, ''Terminal 2'')] \<and>
   main_tab_widget (run [CloseMainTab 0] (TerminalEmulator ''/home'' PNone PNone)) =
     [(1, ''Terminal 1'')] \<and>
   second_tab_widget (run [CloseMainTab 0] (TerminalEmulator ''/home'' PNone PNone)) = None \<and>
   main_tab_widget (run [CloseMainTab 0, InitializeDoublePane, CloseSecondHalf]
       (TerminalEmulator ''/home'' PNone PNone)) = [(1, ''Terminal 1''), (2, ''Terminal 2'')] \<and>
   second_tab_widget (run [CloseMainTab 0, InitializeDoublePane, CloseSecondHalf]
       (TerminalEmulator ''/home'' PNone PNone)) = None"
  using close_second_half_appends [of "close_main_tab 0 (TerminalEmulator ''/home'' PNone PNone)"
      "[]" "(1, ''Terminal 1'')"]
    close_second_half_appends [of
      "initialize_double_pane (close_main_tab 0 (TerminalEmulator ''/home'' PNone PNone))"
      "[(2, ''Terminal 2'')]" "(1, ''Terminal 1'')"]
  by (simp add: closed_once_main closed_once_second closed_once_widgets closed_once_counter
        opened_after_close new_label_def str_nat_2)

section \<open>The startup command\<close>

lemma flags_add_terminal_tab:
  "command (add_terminal_tab d c p s) = command s"
  "flag_resets (add_terminal_tab d c p s) = flag_resets s"
  "command_executed (add_terminal_tab d c p s) =
     (if p = ''second'' then command_executed s else (command_executed s \<or> truthy (command s)))"
  "startup_runs (add_terminal_tab d c p s) =
     (if p \<noteq> ''second'' \<and> \<not> command_executed s \<and> truthy (command s)
      then startup_runs s + 1 else startup_runs s)"
  by (auto simp add: add_terminal_tab_def Let_def split_beta select_command_def
        split: option.splits)

lemma step_command: "command (step x s) = command s"
  by (cases x)
    (simp_all add: flags_add_terminal_tab close_main_tab_def close_second_tab_def
      move_tab_to_second_pane_def initialize_double_pane_def close_second_half_def
      create_second_pane_def Let_def split_beta split: option.splits)

lemma step_startup_used:
  assumes "truthy (command s)" and "command_executed s"
    and "startup_runs s = Suc (flag_resets s)"
  shows "command_executed (step x s) \<and> startup_runs (step x s) = Suc (flag_resets (step x s))"
  using assms
  by (cases x)
    (simp_all add: flags_add_terminal_tab close_main_tab_def close_second_tab_def
      move_tab_to_second_pane_def initialize_double_pane_def close_second_half_def
      create_second_pane_def Let_def split_beta split: option.splits)

lemma step_startup_none:
  assumes "\<not> truthy (command s)" and "startup_runs s = 0"
  shows "startup_runs (step x s) = 0"
  using assms
  by (cases x)
    (simp_all add: flags_add_terminal_tab close_main_tab_def close_second_tab_def
      move_tab_to_second_pane_def initialize_double_pane_def close_second_half_def
      create_second_pane_def Let_def split_beta split: option.splits)

lemma run_command: "command (run xs s) = command s"
  by (induction xs arbitrary: s) (simp_all add: step_command)

lemma run_startup_used:
  "truthy (command s) \<Longrightarrow> command_executed s \<Longrightarrow> startup_runs s = Suc (flag_resets s) \<Longrightarrow>
     startup_runs (run xs s) = Suc (flag_resets (run xs s))"
  by (induction xs arbitrary: s) (simp_all add: step_command step_startup_used)

lemma run_startup_none:
  "\<not> truthy (command s) \<Longrightarrow> startup_runs s = 0 \<Longrightarrow> startup_runs (run xs s) = 0"
  by (induction xs arbitrary: s) (simp_all add: step_command step_startup_none)

lemma TerminalEmulator_flags:
  "command (TerminalEmulator cwd d c) = c"
  "flag_resets (TerminalEmulator cwd d c) = 0"
  "command_executed (TerminalEmulator cwd d c) = truthy c"
  "startup_runs (TerminalEmulator cwd d c) = (if truthy c then 1 else 0)"
  by (simp_all add: TerminalEmulator_def flags_add_terminal_tab)

text \<open>
  Claim C2, as amended. Over any sequence of operations the number of new tabs that
  were given the startup command is one plus the number of times the flag was reset
  (which \<^verbatim>\<open>close_main_tab\<close> does when it closes the last main tab), and zero
  when no startup command was supplied. So the command is used once only as long as
  the main pane is never emptied by a close.
\<close>

theorem startup_command_once_per_reset:
  "startup_runs (run xs (TerminalEmulator cwd d c)) =
     (if truthy c then 1 + flag_resets (run xs (TerminalEmulator cwd d c)) else 0)"
proof (cases "truthy c")
  case True
  then show ?thesis
    using run_startup_used [of "TerminalEmulator cwd d c" xs]
    by (simp add: TerminalEmulator_flags)
next
  case False
  then show ?thesis
    using run_startup_none [of "TerminalEmulator cwd d c" xs]
    by (simp add: TerminalEmulator_flags)
qed

text \<open>
  The claim as stated fails: closing the only main tab resets the flag, and the
  replacement tab is given the startup command a second time.
\<close>

theorem startup_command_twice_counterexample:
  "startup_runs (run [CloseMainTab 0] (TerminalEmulator ''/home'' PNone (PStr ''ls''))) = 2 \<and>
   map w_command (widgets (run [CloseMainTab 0] (TerminalEmulator ''/home'' PNone (PStr ''ls''))))
     = [PStr ''ls'', PStr ''ls'']"
  by code_simp

theorem startup_command_once_per_reset_witness:
  "flag_resets (run [CloseMainTab 0, CloseMainTab 5] (TerminalEmulator ''/home'' PNone (PStr ''ls''))) = 1 \<and>
   startup_runs (run [CloseMainTab 0, CloseMainTab 5] (TerminalEmulator ''/home'' PNone (PStr ''ls''))) = 2 \<and>
   startup_runs (run [CloseMainTab 0] (TerminalEmulator ''/home'' PNone PNone)) = 0"
proof -
  have a: "flag_resets (run [CloseMainTab 0, CloseMainTab 5]
      (TerminalEmulator ''/home'' PNone (PStr ''ls''))) = 1"
    by code_simp
  show ?thesis
    using startup_command_once_per_reset [of "[CloseMainTab 0, CloseMainTab 5]" "''/home''" PNone
        "PStr ''ls''"]
      startup_command_once_per_reset [of "[CloseMainTab 0]" "''/home''" PNone PNone] a
    by simp
qed

section \<open>The second pane is open exactly while it has tabs\<close>

lemma step_second_nonempty:
  "second_tab_widget s \<noteq> Some [] \<Longrightarrow> second_tab_widget (step x s) \<noteq> Some []"
  by (cases x)
    (auto simp add: second_add_terminal_tab close_main_tab_def close_second_tab_def
      move_tab_to_second_pane_def initialize_double_pane_def close_second_half_def
      create_second_pane_def Let_def split_beta addTab_def move_all_back_eq
      split: option.splits if_splits)

lemma run_second_nonempty:
  "second_tab_widget s \<noteq> Some [] \<Longrightarrow> second_tab_widget (run xs s) \<noteq> Some []"
  by (induction xs arbitrary: s) (simp_all add: step_second_nonempty)

lemma TerminalEmulator_second: "second_tab_widget (TerminalEmulator cwd d c) = None"
  by (simp add: TerminalEmulator_def second_add_terminal_tab)

lemma close_second_tab_empties:
  "second_tab_widget s = Some ts \<Longrightarrow> removeTab i ts = [] \<Longrightarrow>
     second_tab_widget (close_second_tab i s) = None"
  by (simp add: close_second_tab_def Let_def split: option.splits)

lemma close_second_tab_keeps:
  "second_tab_widget s = Some ts \<Longrightarrow> removeTab i ts \<noteq> [] \<Longrightarrow>
     second_tab_widget (close_second_tab i s) = Some (removeTab i ts)"
  by (simp add: close_second_tab_def Let_def split: option.splits)

lemma initialize_double_pane_second:
  "second_tab_widget (initialize_double_pane s) =
     (case second_tab_widget s of
        None \<Rightarrow> Some [(length (widgets s) + (if main_tab_widget s = [] then 1 else 0),
                       ''Terminal '' @ str_nat (tab_counter s + (if main_tab_widget s = [] then 2 else 1)))]
      | Some ts \<Rightarrow> Some ts)"
  by (simp add: initialize_double_pane_def Let_def create_second_pane_def
        second_add_terminal_tab new_label_def split: option.splits)

text \<open>
  Claim C4, as amended. In every state reached from construction the second pane is
  either closed or holds at least one tab; closing a second-pane tab that leaves none
  closes the pane in the same call; opening the dual pane while the second pane is
  closed leaves it open with exactly one tab; and opening it while the second pane is
  already open leaves that pane's tabs as they were.
\<close>

theorem second_pane_open_iff_nonempty:
  "second_tab_widget (run xs (TerminalEmulator cwd d c)) \<noteq> Some [] \<and>
   (second_tab_widget s = Some ts \<and> removeTab i ts = [] \<longrightarrow>
      second_tab_widget (close_second_tab i s) = None) \<and>
   (second_tab_widget s = None \<longrightarrow>
      (\<exists>t. second_tab_widget (initialize_double_pane s) = Some [t])) \<and>
   (second_tab_widget s = Some ts \<longrightarrow>
      second_tab_widget (initialize_double_pane s) = Some ts)"
proof (intro conjI impI)
  show "second_tab_widget (run xs (TerminalEmulator cwd d c)) \<noteq> Some []"
    by (rule run_second_nonempty) (simp add: TerminalEmulator_second)
next
  assume "second_tab_widget s = Some ts \<and> removeTab i ts = []"
  then show "second_tab_widget (close_second_tab i s) = None"
    by (simp add: close_second_tab_empties)
next
  assume "second_tab_widget s = None"
  then show "\<exists>t. second_tab_widget (initialize_double_pane s) = Some [t]"
    by (simp add: initialize_double_pane_second)
next
  assume "second_tab_widget s = Some ts"
  then show "second_tab_widget (initialize_double_pane s) = Some ts"
    by (simp add: initialize_double_pane_second)
qed

text \<open>
  The claim as stated fails on its last part: when the second pane already holds two
  tabs, \<^verbatim>\<open>initialize_double_pane\<close> leaves both.
\<close>

theorem open_second_pane_not_one_counterexample:
  "second_tab_widget
     (run [InitializeDoublePane, AddTerminalTab PNone PNone ''second'', InitializeDoublePane]
        (TerminalEmulator ''/home'' PNone PNone))
   = Some [(1, ''Terminal 2''), (2, ''Terminal 3'')]"
  by code_simp

theorem second_pane_open_iff_nonempty_witness:
  "second_tab_widget (TerminalEmulator ''/home'' PNone PNone) = None \<and>
   second_tab_widget (initialize_double_pane (TerminalEmulator ''/home'' PNone PNone))
     = Some [(1, ''Terminal 2'')] \<and>
   removeTab 0 [(1, ''Terminal 2'')] = [] \<and>
   second_tab_widget (close_second_tab 0
      (initialize_double_pane (TerminalEmulator ''/home'' PNone PNone))) = None \<and>
   second_tab_widget (initialize_double_pane
      (initialize_double_pane (TerminalEmulator ''/home'' PNone PNone)))
     = Some [(1, ''Terminal 2'')]"
proof -
  let ?s0 = "TerminalEmulator ''/home'' PNone PNone"
  let ?s1 = "initialize_double_pane ?s0"
  have a: "second_tab_widget ?s0 = None" by code_simp
  have b: "second_tab_widget ?s1 = Some [(1, ''Terminal 2'')]" by code_simp
  have c: "removeTab 0 [(1::nat, ''Terminal 2'')] = []" by code_simp
  from second_pane_open_iff_nonempty [of "[]" "''/home''" PNone PNone ?s0 "[]" 0] a
  have "\<exists>t. second_tab_widget ?s1 = Some [t]" by blast
  moreover
  from second_pane_open_iff_nonempty [of "[]" "''/home''" PNone PNone ?s1 "[(1, ''Terminal 2'')]" 0] b c
  have "second_tab_widget (close_second_tab 0 ?s1) = None
      \<and> second_tab_widget (initialize_double_pane ?s1) = Some [(1, ''Terminal 2'')]" by blast
  ultimately show ?thesis using a b c by blast
qed

section \<open>Moving a tab to the second pane\<close>

lemma move_other_pane:
  "r \<noteq> MainPane \<or> \<not> in_range (main_tab_widget s) i \<Longrightarrow>
     main_tab_widget (move_tab_to_second_pane r i s) = main_tab_widget s \<and>
     second_tab_widget (move_tab_to_second_pane r i s) = second_tab_widget s \<and>
     widgets (move_tab_to_second_pane r i s) = widgets s"
  by (auto simp add: move_tab_to_second_pane_def widget_at_def)

lemma move_in_range:
  assumes "in_range (main_tab_widget s) i"
  shows "main_tab_widget (move_tab_to_second_pane MainPane i s) =
           (if removeTab i (main_tab_widget s) = [] then [(length (widgets s), new_label s)]
            else removeTab i (main_tab_widget s))"
    and "second_tab_widget (move_tab_to_second_pane MainPane i s) =
           Some (second_tabs s @ [main_tab_widget s ! nat i])"
    and "length (widgets (move_tab_to_second_pane MainPane i s)) =
           (if removeTab i (main_tab_widget s) = [] then Suc (length (widgets s))
            else length (widgets s))"
  using assms
  by (auto simp add: move_tab_to_second_pane_def widget_at_def tabText_def Let_def
        create_second_pane_def main_add_terminal_tab second_add_terminal_tab addTab_def
        second_tabs_def new_label_def split: option.splits)

lemma memberships_count: "memberships s w = count (mset (refs s)) w"
  by (simp add: memberships_def count_mset)

lemma wf_alt:
  "wf s = (distinct (refs s) \<and> (\<forall>w \<in> set (refs s). w < length (widgets s)))"
  by (simp add: wf_def list_all_iff)

lemma refs_move_in_range:
  assumes "in_range (main_tab_widget s) i"
  shows "mset (refs (move_tab_to_second_pane MainPane i s)) =
           mset (refs s) +
             (if removeTab i (main_tab_widget s) = [] then {#length (widgets s)#} else {#})"
proof -
  have m: "mset (main_tab_widget s) =
      add_mset (main_tab_widget s ! nat i) (mset (removeTab i (main_tab_widget s)))"
    using assms by (rule mset_removeTab)
  have g: "image_mset fst (mset (main_tab_widget s)) =
      add_mset (fst (main_tab_widget s ! nat i))
        (image_mset fst (mset (removeTab i (main_tab_widget s))))"
    by (subst m) simp
  show ?thesis
    unfolding refs_def
    by (simp add: move_in_range [OF assms] g second_tabs_def)
qed

lemma move_facts:
  assumes "wf s"
  shows "wf (move_tab_to_second_pane r i s) \<and>
         (\<forall>w \<in> set (refs s). memberships (move_tab_to_second_pane r i s) w = 1) \<and>
         (r = MainPane \<and> in_range (main_tab_widget s) i \<longrightarrow>
            second_tab_widget (move_tab_to_second_pane r i s) =
              Some (second_tabs s @ [main_tab_widget s ! nat i]) \<and>
            fst (main_tab_widget s ! nat i)
              \<notin> fst ` set (main_tab_widget (move_tab_to_second_pane r i s)))"
proof (cases "r = MainPane \<and> in_range (main_tab_widget s) i")
  case False
  then have same: "refs (move_tab_to_second_pane r i s) = refs s"
      "widgets (move_tab_to_second_pane r i s) = widgets s"
    using move_other_pane [of r s i] by (auto simp add: refs_def second_tabs_def)
  have "\<forall>w \<in> set (refs s). count (mset (refs s)) w = 1"
    using assms by (simp add: wf_alt distinct_count_atmost_1)
  then show ?thesis using False assms same by (auto simp add: wf_alt memberships_count)
next
  case True
  then have r: "r = MainPane" and ir: "in_range (main_tab_widget s) i" by simp_all
  let ?s' = "move_tab_to_second_pane MainPane i s"
  let ?w0 = "fst (main_tab_widget s ! nat i)"
  have d: "distinct (refs s)" and b: "\<forall>w \<in> set (refs s). w < length (widgets s)"
    using assms by (simp_all add: wf_alt)
  have ms: "mset (refs ?s') = mset (refs s) +
      (if removeTab i (main_tab_widget s) = [] then {#length (widgets s)#} else {#})"
    using ir by (rule refs_move_in_range)
  have fresh: "length (widgets s) \<notin> set (refs s)" using b by auto
  let ?extra = "if removeTab i (main_tab_widget s) = [] then [length (widgets s)] else []"
  have ms': "mset (refs ?s') = mset (refs s @ ?extra)"
    using ms by simp
  have dx: "distinct (refs s @ ?extra)" using d fresh by simp
  have "distinct (refs ?s') = distinct (refs s @ ?extra)"
    using ms' by (rule mset_eq_imp_distinct_iff)
  then have d': "distinct (refs ?s')" using dx by simp
  have st: "set (refs ?s') = set (refs s @ ?extra)"
    using ms' by (rule mset_eq_setD)
  have cnt: "w \<in> set (refs s) \<Longrightarrow> count (mset (refs ?s')) w = 1" for w
  proof -
    assume "w \<in> set (refs s)"
    then have "w \<in> set (refs ?s')" using st by simp
    then show ?thesis using d' by (simp add: distinct_count_atmost_1)
  qed
  have b': "\<forall>w \<in> set (refs ?s'). w < length (widgets ?s')"
    using b st by (auto simp add: move_in_range(3) [OF ir] split: if_splits)
  have wf': "wf ?s'" using d' b' by (simp add: wf_alt)
  have one: "\<forall>w \<in> set (refs s). memberships ?s' w = 1"
    by (simp add: memberships_count cnt)
  have sec: "second_tab_widget ?s' = Some (second_tabs s @ [main_tab_widget s ! nat i])"
    using ir by (rule move_in_range(2))
  have w0: "?w0 \<in> set (refs s)"
    using ir by (auto simp add: refs_def in_range_def)
  have "count (mset (refs ?s')) ?w0 = 1" using cnt [OF w0] .
  moreover have "refs ?s' = map fst (main_tab_widget ?s') @ map fst (second_tabs s) @ [?w0]"
    by (simp add: refs_def second_tabs_def sec)
  ultimately have "count (mset (map fst (main_tab_widget ?s'))) ?w0 = 0"
    by simp
  then have "?w0 \<notin> set (map fst (main_tab_widget ?s'))"
    by (simp add: count_eq_zero_iff)
  then have notin: "?w0 \<notin> fst ` set (main_tab_widget ?s')"
    by simp
  show ?thesis using r wf' one sec notin by simp
qed


lemma image_mset_removeTab:
  "in_range ts i \<Longrightarrow>
     image_mset fst (mset ts) =
       add_mset (fst (ts ! nat i)) (image_mset fst (mset (removeTab i ts)))"
proof -
  assume "in_range ts i"
  then have "mset ts = add_mset (ts ! nat i) (mset (removeTab i ts))"
    by (rule mset_removeTab)
  then have "image_mset fst (mset ts) =
      image_mset fst (add_mset (ts ! nat i) (mset (removeTab i ts)))"
    by (rule arg_cong)
  then show ?thesis by simp
qed

lemma wf_shrink:
  assumes "wf s" and "mset (refs s) = add_mset a (mset (refs s'))"
    and "length (widgets s') = length (widgets s)"
  shows "wf s'"
proof -
  have m: "mset (refs s) = mset (a # refs s')" using assms(2) by simp
  have "distinct (refs s) = distinct (a # refs s')"
    using m by (rule mset_eq_imp_distinct_iff)
  moreover have "set (refs s) = set (a # refs s')"
    using m by (rule mset_eq_setD)
  ultimately show ?thesis using assms(1,3) by (auto simp add: wf_alt)
qed

lemma wf_same:
  "wf s \<Longrightarrow> refs s' = refs s \<Longrightarrow> length (widgets s') = length (widgets s) \<Longrightarrow> wf s'"
  by (simp add: wf_alt)

lemma refs_add_terminal_tab:
  "refs (add_terminal_tab d c p s) =
     (if p = ''second''
      then (if second_tab_widget s = None then refs s else refs s @ [length (widgets s)])
      else map fst (main_tab_widget s) @ [length (widgets s)] @ map fst (second_tabs s))"
  by (auto simp add: refs_def second_tabs_def main_add_terminal_tab second_add_terminal_tab
        split: option.splits)

lemma wf_grow:
  assumes "wf s" and "mset (refs s') = mset (refs s @ extra)"
    and "extra = [] \<or> extra = [length (widgets s)]"
    and "length (widgets s') = Suc (length (widgets s))"
  shows "wf s'"
proof -
  have d: "distinct (refs s)" and b: "\<forall>w \<in> set (refs s). w < length (widgets s)"
    using assms(1) by (simp_all add: wf_alt)
  have fresh: "length (widgets s) \<notin> set (refs s)" using b by auto
  have dx: "distinct (refs s @ extra)" using d fresh assms(3) by auto
  have "distinct (refs s') = distinct (refs s @ extra)"
    using assms(2) by (rule mset_eq_imp_distinct_iff)
  then have d': "distinct (refs s')" using dx by simp
  have "set (refs s') = set (refs s @ extra)"
    using assms(2) by (rule mset_eq_setD)
  then have "\<forall>w \<in> set (refs s'). w < length (widgets s')"
    using b assms(3,4) by auto
  then show ?thesis using d' by (simp add: wf_alt)
qed

lemma wf_add_terminal_tab:
  assumes "wf s"
  shows "wf (add_terminal_tab d c p s)"
proof -
  let ?extra = "if p = ''second'' \<and> second_tab_widget s = None then [] else [length (widgets s)]"
  have "mset (refs (add_terminal_tab d c p s)) = mset (refs s @ ?extra)"
    by (simp add: refs_add_terminal_tab) (simp add: refs_def)
  then show ?thesis
    by (rule wf_grow [OF assms]) simp_all
qed

lemma wf_terminate_at: "wf s \<Longrightarrow> wf (terminate_at w s)"
  by (rule wf_same) (simp_all add: refs_def second_tabs_def)

lemma wf_remove_main:
  assumes "wf s"
  shows "wf (s\<lparr>main_tab_widget := removeTab i (main_tab_widget s)\<rparr>)"
proof (cases "in_range (main_tab_widget s) i")
  case True
  show ?thesis
    by (rule wf_shrink [OF assms, where a = "fst (main_tab_widget s ! nat i)"])
       (simp_all add: refs_def second_tabs_def image_mset_removeTab [OF True])
next
  case False
  then show ?thesis using assms by (simp add: removeTab_def)
qed

lemma wf_counters [simp]:
  "wf (s\<lparr>tab_counter := n\<rparr>) = wf s"
  "wf (s\<lparr>command_executed := b\<rparr>) = wf s"
  "wf (s\<lparr>flag_resets := k\<rparr>) = wf s"
  "wf (s\<lparr>dialogs := ds\<rparr>) = wf s"
  by (simp_all add: wf_def refs_def second_tabs_def)

lemma wf_close_main_tab: "wf s \<Longrightarrow> wf (close_main_tab i s)"
proof -
  assume w: "wf s"
  let ?s1 = "case widget_at (main_tab_widget s) i of Some w \<Rightarrow> terminate_at w s | None \<Rightarrow> s"
  let ?s2 = "?s1\<lparr>main_tab_widget := removeTab i (main_tab_widget ?s1)\<rparr>"
  have "wf ?s1" using w by (simp add: wf_terminate_at split: option.splits)
  then have w2: "wf ?s2" by (rule wf_remove_main)
  then have "wf (add_terminal_tab PNone PNone ''main''
      (?s2\<lparr>tab_counter := 0, command_executed := False, flag_resets := flag_resets ?s2 + 1\<rparr>))"
    by (intro wf_add_terminal_tab) simp
  then show ?thesis using w2 unfolding close_main_tab_def Let_def by presburger
qed

lemma wf_remove_second:
  assumes "wf s" and "second_tab_widget s = Some ts"
  shows "wf (s\<lparr>second_tab_widget := (if removeTab i ts = [] then None else Some (removeTab i ts))\<rparr>)"
proof (cases "in_range ts i")
  case True
  let ?s' = "s\<lparr>second_tab_widget := (if removeTab i ts = [] then None else Some (removeTab i ts))\<rparr>"
  have "second_tabs ?s' = removeTab i ts" by (simp add: second_tabs_def)
  then have "mset (refs s) = add_mset (fst (ts ! nat i)) (mset (refs ?s'))"
    using image_mset_removeTab [OF True] by (simp add: refs_def second_tabs_def assms(2))
  then show ?thesis by (rule wf_shrink [OF assms(1)]) simp
next
  case False
  then show ?thesis using assms by (auto simp add: removeTab_def wf_def refs_def second_tabs_def)
qed

lemma wf_close_second_tab: "wf s \<Longrightarrow> wf (close_second_tab i s)"
proof -
  assume w: "wf s"
  show ?thesis
  proof (cases "second_tab_widget s")
    case None
    then show ?thesis using w by (simp add: close_second_tab_def)
  next
    case (Some ts)
    let ?s1 = "case widget_at ts i of Some w \<Rightarrow> terminate_at w s | None \<Rightarrow> s"
    have w1: "wf ?s1" using w by (simp add: wf_terminate_at split: option.splits)
    have s1: "second_tab_widget ?s1 = Some ts" using Some by (simp split: option.splits)
    have "close_second_tab i s =
        ?s1\<lparr>second_tab_widget := (if removeTab i ts = [] then None else Some (removeTab i ts))\<rparr>"
      using Some by (simp add: close_second_tab_def Let_def)
    then show ?thesis using wf_remove_second [OF w1 s1, of i] by simp
  qed
qed

lemma wf_initialize_double_pane: "wf s \<Longrightarrow> wf (initialize_double_pane s)"
proof -
  assume w: "wf s"
  let ?s1 = "if length (main_tab_widget s) = 0 then add_terminal_tab PNone PNone ''main'' s else s"
  have w1: "wf ?s1" using w by (simp add: wf_add_terminal_tab)
  have "second_tab_widget ?s1 = None \<Longrightarrow> wf (create_second_pane ?s1)"
    using w1 by (simp add: wf_def refs_def second_tabs_def create_second_pane_def)
  then show ?thesis using w1
    by (simp add: initialize_double_pane_def Let_def wf_add_terminal_tab)
qed

lemma wf_close_second_half: "wf s \<Longrightarrow> wf (close_second_half s)"
  by (auto simp add: close_second_half_def move_all_back_eq wf_def refs_def second_tabs_def
        split: option.splits)

lemma step_wf: "wf s \<Longrightarrow> wf (step x s)"
  by (cases x)
    (simp_all add: wf_add_terminal_tab wf_close_main_tab wf_close_second_tab move_facts
      wf_initialize_double_pane wf_close_second_half)

lemma run_wf: "wf s \<Longrightarrow> wf (run xs s)"
  by (induction xs arbitrary: s) (simp_all add: step_wf)

lemma TerminalEmulator_wf: "wf (TerminalEmulator cwd d c)"
  unfolding TerminalEmulator_def
  by (rule wf_add_terminal_tab) (simp add: wf_def refs_def second_tabs_def)

text \<open>
  Claim C5. Every state reached from construction is well formed, and from a well
  formed state a move leaves the state well formed with every tab's widget in exactly
  one tab slot over both panes. When the move is made from the main pane at a valid
  index, the second pane afterwards is open and holds its former tabs (none when it
  was closed) followed by the moved tab, and the main pane no longer holds it.
\<close>

theorem move_keeps_one_pane:
  "wf (run xs (TerminalEmulator cwd d c)) \<and>
   (wf s \<longrightarrow>
      wf (move_tab_to_second_pane r i s) \<and>
      (\<forall>w \<in> set (refs s). memberships (move_tab_to_second_pane r i s) w = 1) \<and>
      (r = MainPane \<and> in_range (main_tab_widget s) i \<longrightarrow>
         second_tab_widget (move_tab_to_second_pane r i s) =
           Some (second_tabs s @ [main_tab_widget s ! nat i]) \<and>
         fst (main_tab_widget s ! nat i)
           \<notin> fst ` set (main_tab_widget (move_tab_to_second_pane r i s))))"
proof
  show "wf (run xs (TerminalEmulator cwd d c))"
    by (rule run_wf) (rule TerminalEmulator_wf)
next
  show "wf s \<longrightarrow>
      wf (move_tab_to_second_pane r i s) \<and>
      (\<forall>w \<in> set (refs s). memberships (move_tab_to_second_pane r i s) w = 1) \<and>
      (r = MainPane \<and> in_range (main_tab_widget s) i \<longrightarrow>
         second_tab_widget (move_tab_to_second_pane r i s) =
           Some (second_tabs s @ [main_tab_widget s ! nat i]) \<and>
         fst (main_tab_widget s ! nat i)
           \<notin> fst ` set (main_tab_widget (move_tab_to_second_pane r i s)))"
    using move_facts [of s r i] by blast
qed

theorem move_keeps_one_pane_witness:
  "wf (run [AddTerminalTab PNone PNone ''main''] (TerminalEmulator ''/home'' PNone PNone)) \<and>
   refs (run [AddTerminalTab PNone PNone ''main''] (TerminalEmulator ''/home'' PNone PNone)) = [0, 1] \<and>
   in_range (main_tab_widget
     (run [AddTerminalTab PNone PNone ''main''] (TerminalEmulator ''/home'' PNone PNone))) 0 \<and>
   memberships (move_tab_to_second_pane MainPane 0
     (run [AddTerminalTab PNone PNone ''main''] (TerminalEmulator ''/home'' PNone PNone))) 0 = 1 \<and>
   memberships (move_tab_to_second_pane MainPane 0
     (run [AddTerminalTab PNone PNone ''main''] (TerminalEmulator ''/home'' PNone PNone))) 1 = 1 \<and>
   second_tab_widget (move_tab_to_second_pane MainPane 0
     (run [AddTerminalTab PNone PNone ''main''] (TerminalEmulator ''/home'' PNone PNone)))
     = Some [(0, ''Terminal 1'')] \<and>
   0 \<notin> fst ` set (main_tab_widget (move_tab_to_second_pane MainPane 0
     (run [AddTerminalTab PNone PNone ''main''] (TerminalEmulator ''/home'' PNone PNone))))"
proof -
  let ?s = "run [AddTerminalTab PNone PNone ''main''] (TerminalEmulator ''/home'' PNone PNone)"
  have a: "wf ?s" by code_simp
  have b: "refs ?s = [0, 1]" by code_simp
  have c: "in_range (main_tab_widget ?s) 0" by code_simp
  have d: "second_tabs ?s = []" by code_simp
  have e: "main_tab_widget ?s ! nat 0 = (0, ''Terminal 1'')" by code_simp
  from move_keeps_one_pane [of "[]" "''/home''" PNone PNone ?s MainPane 0] a c
  have "(\<forall>w \<in> set (refs ?s). memberships (move_tab_to_second_pane MainPane 0 ?s) w = 1) \<and>
      second_tab_widget (move_tab_to_second_pane MainPane 0 ?s) =
        Some (second_tabs ?s @ [main_tab_widget ?s ! nat 0]) \<and>
      fst (main_tab_widget ?s ! nat 0)
        \<notin> fst ` set (main_tab_widget (move_tab_to_second_pane MainPane 0 ?s))"
    by blast
  then show ?thesis unfolding b d e using a b c by simp
qed

section \<open>Every running terminal has a tab\<close>

lemma no_orphans_alt:
  "no_orphans s =
     (\<forall>w < length (widgets s). process_running (widgets s ! w) \<longrightarrow> w \<in> set (refs s))"
  by (auto simp add: no_orphans_def list_all_iff)

lemma no_orphans_same:
  "no_orphans s \<Longrightarrow> set (refs s) \<subseteq> set (refs s') \<Longrightarrow> widgets s' = widgets s \<Longrightarrow>
     no_orphans s'"
  by (auto simp add: no_orphans_alt)

lemma no_orphans_add:
  assumes "no_orphans s" and "p \<noteq> ''second'' \<or> second_tab_widget s \<noteq> None"
  shows "no_orphans (add_terminal_tab d c p s)"
proof -
  have r: "set (refs (add_terminal_tab d c p s)) = insert (length (widgets s)) (set (refs s))"
    using assms(2) unfolding refs_add_terminal_tab by (auto simp add: refs_def)
  show ?thesis
    using assms(1) unfolding no_orphans_alt r
    by (auto simp add: widgets_add_terminal_tab nth_append less_Suc_eq)
qed

lemma no_orphans_closed:
  assumes "no_orphans s"
    and "widgets s' = widgets (terminate_at a s)"
    and "set (refs s) \<subseteq> insert a (set (refs s'))"
  shows "no_orphans s'"
  using assms
  by (auto simp add: no_orphans_alt terminate_at_def terminate_def nth_list_update
        split: if_splits)

lemma set_image_removeTab:
  assumes "in_range ts i"
  shows "fst ` set ts \<subseteq> insert (fst (ts ! nat i)) (fst ` set (removeTab i ts))"
proof -
  have "set_mset (image_mset fst (mset ts)) =
      set_mset (add_mset (fst (ts ! nat i)) (image_mset fst (mset (removeTab i ts))))"
    using image_mset_removeTab [OF assms] by (rule arg_cong)
  then show ?thesis by simp
qed

lemma no_orphans_counters [simp]:
  "no_orphans (s\<lparr>tab_counter := n\<rparr>) = no_orphans s"
  "no_orphans (s\<lparr>command_executed := b\<rparr>) = no_orphans s"
  "no_orphans (s\<lparr>flag_resets := k\<rparr>) = no_orphans s"
  "no_orphans (s\<lparr>dialogs := ds\<rparr>) = no_orphans s"
  by (simp_all add: no_orphans_def refs_def second_tabs_def)

lemma no_orphans_close_main_tab:
  assumes "no_orphans s"
  shows "no_orphans (close_main_tab i s)"
proof -
  let ?s1 = "case widget_at (main_tab_widget s) i of Some w \<Rightarrow> terminate_at w s | None \<Rightarrow> s"
  let ?s2 = "?s1\<lparr>main_tab_widget := removeTab i (main_tab_widget ?s1)\<rparr>"
  have n2: "no_orphans ?s2"
  proof (cases "in_range (main_tab_widget s) i")
    case True
    let ?a = "fst (main_tab_widget s ! nat i)"
    have "widgets ?s2 = widgets (terminate_at ?a s)"
      using True by (simp add: widget_at_def)
    moreover have "set (refs s) \<subseteq> insert ?a (set (refs ?s2))"
      using set_image_removeTab [OF True] True
      by (auto simp add: refs_def second_tabs_def widget_at_def)
    ultimately show ?thesis by (rule no_orphans_closed [OF assms])
  next
    case False
    then have "?s2 = s" by (simp add: widget_at_def removeTab_def)
    then show ?thesis using assms by simp
  qed
  then have "no_orphans (add_terminal_tab PNone PNone ''main''
      (?s2\<lparr>tab_counter := 0, command_executed := False, flag_resets := flag_resets ?s2 + 1\<rparr>))"
    by (intro no_orphans_add) simp_all
  then show ?thesis using n2 unfolding close_main_tab_def Let_def by presburger
qed

lemma no_orphans_close_second_tab:
  assumes "no_orphans s"
  shows "no_orphans (close_second_tab i s)"
proof (cases "second_tab_widget s")
  case None
  then show ?thesis using assms by (simp add: close_second_tab_def)
next
  case (Some ts)
  show ?thesis
  proof (cases "in_range ts i")
    case True
    let ?a = "fst (ts ! nat i)"
    have "widgets (close_second_tab i s) = widgets (terminate_at ?a s)"
      using True Some by (simp add: close_second_tab_def Let_def widget_at_def)
    moreover have "set (refs s) \<subseteq> insert ?a (set (refs (close_second_tab i s)))"
      using set_image_removeTab [OF True] True Some
      by (auto simp add: close_second_tab_def Let_def refs_def second_tabs_def widget_at_def)
    ultimately show ?thesis by (rule no_orphans_closed [OF assms])
  next
    case False
    then have "close_second_tab i s = (if ts = [] then s\<lparr>second_tab_widget := None\<rparr> else s)"
      using Some by (simp add: close_second_tab_def Let_def widget_at_def removeTab_def)
    then show ?thesis using assms Some
      by (auto simp add: no_orphans_def refs_def second_tabs_def)
  qed
qed

lemma no_orphans_move:
  assumes "no_orphans s"
  shows "no_orphans (move_tab_to_second_pane r i s)"
proof (cases "r = MainPane \<and> in_range (main_tab_widget s) i")
  case False
  then have "refs (move_tab_to_second_pane r i s) = refs s"
      "widgets (move_tab_to_second_pane r i s) = widgets s"
    using move_other_pane [of r s i] by (auto simp add: refs_def second_tabs_def)
  then show ?thesis using assms by (simp add: no_orphans_def)
next
  case True
  then have r: "r = MainPane" and ir: "in_range (main_tab_widget s) i" by simp_all
  let ?s1 = "s\<lparr>main_tab_widget := removeTab i (main_tab_widget s),
      second_tab_widget := Some (second_tabs s @ [main_tab_widget s ! nat i])\<rparr>"
  have e: "move_tab_to_second_pane MainPane i s =
      (if length (main_tab_widget ?s1) = 0 then add_terminal_tab PNone PNone ''main'' ?s1 else ?s1)"
    using ir
    by (simp add: move_tab_to_second_pane_def widget_at_def tabText_def Let_def
          create_second_pane_def addTab_def second_tabs_def split: option.splits)
  have "set (refs s) \<subseteq> set (refs ?s1)"
    using set_image_removeTab [OF ir] by (auto simp add: refs_def second_tabs_def)
  then have n1: "no_orphans ?s1" by (rule no_orphans_same [OF assms]) simp
  then have "no_orphans (add_terminal_tab PNone PNone ''main'' ?s1)"
    by (intro no_orphans_add) simp_all
  then show ?thesis using n1 r e by presburger
qed

lemma no_orphans_initialize_double_pane:
  assumes "no_orphans s"
  shows "no_orphans (initialize_double_pane s)"
proof -
  let ?s1 = "if length (main_tab_widget s) = 0 then add_terminal_tab PNone PNone ''main'' s else s"
  have n1: "no_orphans ?s1" using assms by (simp add: no_orphans_add)
  have "second_tab_widget ?s1 = None \<Longrightarrow> no_orphans (create_second_pane ?s1)"
    using n1 by (simp add: no_orphans_def refs_def second_tabs_def create_second_pane_def)
  then have "second_tab_widget ?s1 = None \<Longrightarrow>
      no_orphans (add_terminal_tab PNone PNone ''second'' (create_second_pane ?s1))"
    by (intro no_orphans_add) (simp_all add: create_second_pane_def)
  then show ?thesis using n1
    unfolding initialize_double_pane_def Let_def by presburger
qed

lemma no_orphans_close_second_half:
  assumes "no_orphans s"
  shows "no_orphans (close_second_half s)"
proof (cases "second_tab_widget s")
  case None
  then show ?thesis using assms by (simp add: close_second_half_def)
next
  case (Some ts)
  then have "set (refs s) \<subseteq> set (refs (close_second_half s))"
      and "widgets (close_second_half s) = widgets s"
    by (simp_all add: close_second_half_def move_all_back_eq refs_def second_tabs_def)
  then show ?thesis by (rule no_orphans_same [OF assms])
qed

lemma step_no_orphans: "no_orphans s \<Longrightarrow> enabled x s \<Longrightarrow> no_orphans (step x s)"
  by (cases x)
    (simp_all add: no_orphans_add no_orphans_close_main_tab no_orphans_close_second_tab
      no_orphans_move no_orphans_initialize_double_pane no_orphans_close_second_half)

lemma run_no_orphans: "no_orphans s \<Longrightarrow> admissible xs s \<Longrightarrow> no_orphans (run xs s)"
  by (induction xs arbitrary: s) (simp_all add: step_no_orphans)

lemma TerminalEmulator_no_orphans: "no_orphans (TerminalEmulator cwd d c)"
  unfolding TerminalEmulator_def
  by (rule no_orphans_add) (simp_all add: no_orphans_def)

lemma add_terminal_tab_running:
  "process_running (widgets (add_terminal_tab d c p s) ! length (widgets s))"
  by (simp add: widgets_add_terminal_tab apply_settings_def restart_uxterm_def start_uxterm_def)

text \<open>
  Claim C9. A tab created for the main pane (or for an unknown pane name) is appended
  to the main pane, one created for the second pane is appended to the second pane,
  and its process is running. A tab is asked for in the second pane only while that
  pane exists: by the context menu of the second pane's own tab bar and by
  \<^verbatim>\<open>initialize_double_pane\<close> right after it has created the pane. Over every
  sequence of operations that respects this, no running terminal is outside both
  panes.
\<close>

theorem created_tab_is_attached:
  "(p \<noteq> ''second'' \<longrightarrow>
      main_tab_widget (add_terminal_tab d c p s) =
        main_tab_widget s @ [(length (widgets s), new_label s)]) \<and>
   (p = ''second'' \<and> second_tab_widget s = Some ts \<longrightarrow>
      second_tab_widget (add_terminal_tab d c p s) =
        Some (ts @ [(length (widgets s), new_label s)])) \<and>
   process_running (widgets (add_terminal_tab d c p s) ! length (widgets s)) \<and>
   (admissible xs (TerminalEmulator cwd d0 c0) \<longrightarrow>
      no_orphans (run xs (TerminalEmulator cwd d0 c0)))"
proof (intro conjI impI)
  assume "p \<noteq> ''second''"
  then show "main_tab_widget (add_terminal_tab d c p s) =
      main_tab_widget s @ [(length (widgets s), new_label s)]"
    by (simp add: main_add_terminal_tab)
next
  assume "p = ''second'' \<and> second_tab_widget s = Some ts"
  then show "second_tab_widget (add_terminal_tab d c p s) =
      Some (ts @ [(length (widgets s), new_label s)])"
    by (simp add: second_add_terminal_tab)
next
  show "process_running (widgets (add_terminal_tab d c p s) ! length (widgets s))"
    by (rule add_terminal_tab_running)
next
  assume "admissible xs (TerminalEmulator cwd d0 c0)"
  then show "no_orphans (run xs (TerminalEmulator cwd d0 c0))"
    by (rule run_no_orphans [OF TerminalEmulator_no_orphans])
qed

theorem created_tab_is_attached_witness:
  "admissible [InitializeDoublePane, AddTerminalTab PNone PNone ''second'', CloseMainTab 0]
      (TerminalEmulator ''/home'' PNone PNone) \<and>
   no_orphans (run [InitializeDoublePane, AddTerminalTab PNone PNone ''second'', CloseMainTab 0]
      (TerminalEmulator ''/home'' PNone PNone)) \<and>
   second_tab_widget (initialize_double_pane (TerminalEmulator ''/home'' PNone PNone))
      = Some [(1, ''Terminal 2'')] \<and>
   second_tab_widget (add_terminal_tab PNone PNone ''second''
      (initialize_double_pane (TerminalEmulator ''/home'' PNone PNone)))
      = Some [(1, ''Terminal 2''), (2, ''Terminal 3'')] \<and>
   main_tab_widget (add_terminal_tab PNone PNone ''main'' (TerminalEmulator ''/home'' PNone PNone))
      = [(0, ''Terminal 1''), (1, ''Terminal 2'')]"
proof -
  let ?s0 = "TerminalEmulator ''/home'' PNone PNone"
  let ?s1 = "initialize_double_pane ?s0"
  let ?xs = "[InitializeDoublePane, AddTerminalTab PNone PNone ''second'', CloseMainTab 0]"
  have a: "admissible ?xs ?s0" by code_simp
  have b: "second_tab_widget ?s1 = Some [(1, ''Terminal 2'')]" by code_simp
  have c: "length (widgets ?s1) = 2" "new_label ?s1 = ''Terminal 3''" by code_simp+
  have d: "main_tab_widget ?s0 = [(0, ''Terminal 1'')]" "length (widgets ?s0) = 1"
    "new_label ?s0 = ''Terminal 2''" by code_simp+
  have e: "''main'' \<noteq> ''second''" by simp
  from created_tab_is_attached [of "''second''" PNone PNone ?s1 "[(1, ''Terminal 2'')]" ?xs
      "''/home''" PNone PNone] a b
  have 1: "no_orphans (run ?xs ?s0) \<and>
      second_tab_widget (add_terminal_tab PNone PNone ''second'' ?s1) =
        Some ([(1, ''Terminal 2'')] @ [(length (widgets ?s1), new_label ?s1)])"
    by blast
  from created_tab_is_attached [of "''main''" PNone PNone ?s0 "[]" "[]" "''/home''" PNone PNone] e
  have 2: "main_tab_widget (add_terminal_tab PNone PNone ''main'' ?s0) =
      main_tab_widget ?s0 @ [(length (widgets ?s0), new_label ?s0)]"
    by blast
  show ?thesis using 1 2 a b unfolding c d by simp
qed

section \<open>The main pane always holds a running terminal\<close>

lemma tabs_running_alt:
  "tabs_running s =
     (\<forall>w \<in> set (refs s). w < length (widgets s) \<and> process_running (widgets s ! w))"
  by (simp add: tabs_running_def list_all_iff)

lemma tabs_running_add:
  assumes "tabs_running s"
  shows "tabs_running (add_terminal_tab d c p s)"
proof -
  have r: "set (refs (add_terminal_tab d c p s)) \<subseteq> insert (length (widgets s)) (set (refs s))"
    unfolding refs_add_terminal_tab by (auto simp add: refs_def)
  have n: "process_running (widgets (add_terminal_tab d c p s) ! length (widgets s))"
    by (rule add_terminal_tab_running)
  have o: "w < length (widgets s) \<Longrightarrow>
      widgets (add_terminal_tab d c p s) ! w = widgets s ! w" for w
    by (simp add: widgets_add_terminal_tab nth_append)
  show ?thesis
    unfolding tabs_running_alt
  proof
    fix w assume "w \<in> set (refs (add_terminal_tab d c p s))"
    then consider "w = length (widgets s)" | "w \<in> set (refs s)" using r by auto
    then show "w < length (widgets (add_terminal_tab d c p s)) \<and>
        process_running (widgets (add_terminal_tab d c p s) ! w)"
    proof cases
      case 1
      then show ?thesis using n by simp
    next
      case 2
      then have "w < length (widgets s) \<and> process_running (widgets s ! w)"
        using assms by (simp add: tabs_running_alt)
      then show ?thesis using o by simp
    qed
  qed
qed

lemma tabs_running_same:
  "tabs_running s \<Longrightarrow> set (refs s') \<subseteq> set (refs s) \<Longrightarrow> widgets s' = widgets s \<Longrightarrow>
     tabs_running s'"
  by (auto simp add: tabs_running_alt)

lemma tabs_running_closed:
  assumes "tabs_running s" and "wf s"
    and "widgets s' = widgets (terminate_at a s)"
    and "mset (refs s) = add_mset a (mset (refs s'))"
  shows "tabs_running s'"
proof -
  have m: "mset (refs s) = mset (a # refs s')" using assms(4) by simp
  have "distinct (refs s) = distinct (a # refs s')"
    using m by (rule mset_eq_imp_distinct_iff)
  then have na: "a \<notin> set (refs s')" using assms(2) by (simp add: wf_alt)
  have sub: "set (refs s') \<subseteq> set (refs s)"
    using mset_eq_setD [OF m] by auto
  show ?thesis
    unfolding tabs_running_alt
  proof
    fix w assume w: "w \<in> set (refs s')"
    then have "w \<noteq> a" using na by auto
    moreover have "w < length (widgets s) \<and> process_running (widgets s ! w)"
      using assms(1) sub w by (auto simp add: tabs_running_alt)
    ultimately show "w < length (widgets s') \<and> process_running (widgets s' ! w)"
      by (simp add: assms(3) terminate_at_def)
  qed
qed

lemma tabs_running_counters [simp]:
  "tabs_running (s\<lparr>tab_counter := n\<rparr>) = tabs_running s"
  "tabs_running (s\<lparr>command_executed := b\<rparr>) = tabs_running s"
  "tabs_running (s\<lparr>flag_resets := k\<rparr>) = tabs_running s"
  "tabs_running (s\<lparr>dialogs := ds\<rparr>) = tabs_running s"
  by (simp_all add: tabs_running_def refs_def second_tabs_def)

lemma tabs_running_close_main_tab:
  assumes "tabs_running s" and "wf s"
  shows "tabs_running (close_main_tab i s)"
proof -
  let ?s1 = "case widget_at (main_tab_widget s) i of Some w \<Rightarrow> terminate_at w s | None \<Rightarrow> s"
  let ?s2 = "?s1\<lparr>main_tab_widget := removeTab i (main_tab_widget ?s1)\<rparr>"
  have n2: "tabs_running ?s2"
  proof (cases "in_range (main_tab_widget s) i")
    case True
    let ?a = "fst (main_tab_widget s ! nat i)"
    have "widgets ?s2 = widgets (terminate_at ?a s)"
      using True by (simp add: widget_at_def)
    moreover have "mset (refs s) = add_mset ?a (mset (refs ?s2))"
      using image_mset_removeTab [OF True] True
      by (simp add: refs_def second_tabs_def widget_at_def)
    ultimately show ?thesis by (rule tabs_running_closed [OF assms])
  next
    case False
    then have "?s2 = s" by (simp add: widget_at_def removeTab_def)
    then show ?thesis using assms by simp
  qed
  then have "tabs_running (add_terminal_tab PNone PNone ''main''
      (?s2\<lparr>tab_counter := 0, command_executed := False, flag_resets := flag_resets ?s2 + 1\<rparr>))"
    by (intro tabs_running_add) simp
  then show ?thesis using n2 unfolding close_main_tab_def Let_def by presburger
qed

lemma tabs_running_close_second_tab:
  assumes "tabs_running s" and "wf s"
  shows "tabs_running (close_second_tab i s)"
proof (cases "second_tab_widget s")
  case None
  then show ?thesis using assms by (simp add: close_second_tab_def)
next
  case (Some ts)
  show ?thesis
  proof (cases "in_range ts i")
    case True
    let ?a = "fst (ts ! nat i)"
    have "widgets (close_second_tab i s) = widgets (terminate_at ?a s)"
      using True Some by (simp add: close_second_tab_def Let_def widget_at_def)
    moreover have "mset (refs s) = add_mset ?a (mset (refs (close_second_tab i s)))"
      using image_mset_removeTab [OF True] True Some
      by (simp add: close_second_tab_def Let_def refs_def second_tabs_def widget_at_def)
    ultimately show ?thesis by (rule tabs_running_closed [OF assms])
  next
    case False
    then have "close_second_tab i s = (if ts = [] then s\<lparr>second_tab_widget := None\<rparr> else s)"
      using Some by (simp add: close_second_tab_def Let_def widget_at_def removeTab_def)
    then show ?thesis using assms(1) Some
      by (auto simp add: tabs_running_def refs_def second_tabs_def)
  qed
qed

lemma tabs_running_move:
  assumes "tabs_running s"
  shows "tabs_running (move_tab_to_second_pane r i s)"
proof (cases "r = MainPane \<and> in_range (main_tab_widget s) i")
  case False
  then have "refs (move_tab_to_second_pane r i s) = refs s"
      "widgets (move_tab_to_second_pane r i s) = widgets s"
    using move_other_pane [of r s i] by (auto simp add: refs_def second_tabs_def)
  then show ?thesis using assms by (simp add: tabs_running_def)
next
  case True
  then have r: "r = MainPane" and ir: "in_range (main_tab_widget s) i" by simp_all
  let ?s1 = "s\<lparr>main_tab_widget := removeTab i (main_tab_widget s),
      second_tab_widget := Some (second_tabs s @ [main_tab_widget s ! nat i])\<rparr>"
  have e: "move_tab_to_second_pane MainPane i s =
      (if length (main_tab_widget ?s1) = 0 then add_terminal_tab PNone PNone ''main'' ?s1 else ?s1)"
    using ir
    by (simp add: move_tab_to_second_pane_def widget_at_def tabText_def Let_def
          create_second_pane_def addTab_def second_tabs_def split: option.splits)
  have "set (refs ?s1) \<subseteq> set (refs s)"
    using set_removeTab [of i "main_tab_widget s"] ir
    by (auto simp add: refs_def second_tabs_def in_range_def)
  then have n1: "tabs_running ?s1" by (rule tabs_running_same [OF assms]) simp
  then have "tabs_running (add_terminal_tab PNone PNone ''main'' ?s1)"
    by (rule tabs_running_add)
  then show ?thesis using n1 r e by presburger
qed

lemma tabs_running_initialize_double_pane:
  assumes "tabs_running s"
  shows "tabs_running (initialize_double_pane s)"
proof -
  let ?s1 = "if length (main_tab_widget s) = 0 then add_terminal_tab PNone PNone ''main'' s else s"
  have n1: "tabs_running ?s1" using assms by (simp add: tabs_running_add)
  have "second_tab_widget ?s1 = None \<Longrightarrow> tabs_running (create_second_pane ?s1)"
    using n1 by (simp add: tabs_running_def refs_def second_tabs_def create_second_pane_def)
  then have "second_tab_widget ?s1 = None \<Longrightarrow>
      tabs_running (add_terminal_tab PNone PNone ''second'' (create_second_pane ?s1))"
    by (intro tabs_running_add)
  then show ?thesis using n1
    unfolding initialize_double_pane_def Let_def by presburger
qed

lemma tabs_running_close_second_half:
  assumes "tabs_running s"
  shows "tabs_running (close_second_half s)"
proof (cases "second_tab_widget s")
  case None
  then show ?thesis using assms by (simp add: close_second_half_def)
next
  case (Some ts)
  then have "set (refs (close_second_half s)) \<subseteq> set (refs s)"
      and "widgets (close_second_half s) = widgets s"
    by (simp_all add: close_second_half_def move_all_back_eq refs_def second_tabs_def)
  then show ?thesis by (rule tabs_running_same [OF assms])
qed

lemma step_tabs_running: "tabs_running s \<Longrightarrow> wf s \<Longrightarrow> tabs_running (step x s)"
  by (cases x)
    (simp_all add: tabs_running_add tabs_running_close_main_tab tabs_running_close_second_tab
      tabs_running_move tabs_running_initialize_double_pane tabs_running_close_second_half)

lemma run_tabs_running: "tabs_running s \<Longrightarrow> wf s \<Longrightarrow> tabs_running (run xs s)"
  by (induction xs arbitrary: s) (simp_all add: step_tabs_running step_wf)

lemma TerminalEmulator_tabs_running: "tabs_running (TerminalEmulator cwd d c)"
  unfolding TerminalEmulator_def
  by (rule tabs_running_add) (simp add: tabs_running_def refs_def second_tabs_def)

lemma close_main_tab_replaces:
  assumes "removeTab i (main_tab_widget s) = []"
  shows "main_tab_widget (close_main_tab i s) = [(length (widgets s), ''Terminal 1'')]"
    and "length (widgets (close_main_tab i s)) = Suc (length (widgets s))"
    and "widgets (close_main_tab i s) ! length (widgets s) =
           apply_settings (XTermWidget (getcwd s) (initial_directory s)
             (if truthy (command s) then command s else PNone))"
    and "process_running (widgets (close_main_tab i s) ! length (widgets s))"
proof -
  let ?s1 = "case widget_at (main_tab_widget s) i of Some w \<Rightarrow> terminate_at w s | None \<Rightarrow> s"
  let ?s2 = "?s1\<lparr>main_tab_widget := removeTab i (main_tab_widget ?s1)\<rparr>"
  let ?s3 = "?s2\<lparr>tab_counter := 0, command_executed := False, flag_resets := flag_resets ?s2 + 1\<rparr>"
  have f: "main_tab_widget ?s1 = main_tab_widget s" "length (widgets ?s1) = length (widgets s)"
      "getcwd ?s1 = getcwd s" "initial_directory ?s1 = initial_directory s"
      "command ?s1 = command s"
    by (simp_all add: terminate_at_def split: option.splits)
  have e: "close_main_tab i s = add_terminal_tab PNone PNone ''main'' ?s3"
    using assms f(1) by (simp add: close_main_tab_def Let_def)
  show "main_tab_widget (close_main_tab i s) = [(length (widgets s), ''Terminal 1'')]"
    unfolding e using assms f by (simp add: main_add_terminal_tab new_label_def str_nat_1)
  show "length (widgets (close_main_tab i s)) = Suc (length (widgets s))"
    unfolding e using f by simp
  show w: "widgets (close_main_tab i s) ! length (widgets s) =
           apply_settings (XTermWidget (getcwd s) (initial_directory s)
             (if truthy (command s) then command s else PNone))"
    unfolding e using f
    by (simp add: widgets_add_terminal_tab nth_append select_command_def py_or_def)
  show "process_running (widgets (close_main_tab i s) ! length (widgets s))"
    unfolding w by (simp add: apply_settings_def restart_uxterm_def start_uxterm_def)
qed

lemma close_main_tab_terminates:
  assumes "in_range (main_tab_widget s) i"
    and "fst (main_tab_widget s ! nat i) < length (widgets s)"
  shows "\<not> process_running (widgets (close_main_tab i s) ! fst (main_tab_widget s ! nat i))"
  using assms
  by (simp add: close_main_tab_def Let_def widget_at_def terminate_at_def terminate_def
        widgets_add_terminal_tab nth_append)

text \<open>
  Claim C3. After any sequence of operations on the window the main pane holds at
  least one tab, and every tab refers to a terminal of the widget store whose process
  is running. Every single operation leaves a main pane that had a tab with at least
  one tab, and closing a main tab or adding one leaves at least one tab whatever the
  state before. When closing a tab empties the main pane, the same call constructs a
  new terminal widget, with the window's folder and startup command, starts its
  process, adds it to the store and puts it in the pane as Terminal 1; the terminal of
  the closed tab is no longer running. Adding a main tab appends a tab for a newly
  constructed widget whose process is running.
\<close>

theorem primary_never_empty:
  "1 \<le> length (main_tab_widget (run xs (TerminalEmulator cwd d c))) \<and>
   1 \<le> length (main_tab_widget (close_main_tab i s)) \<and>
   1 \<le> length (main_tab_widget (add_terminal_tab d' c' ''main'' s)) \<and>
   (length (main_tab_widget s) = 1 \<longrightarrow>
      main_tab_widget (close_main_tab 0 s) = [(length (widgets s), ''Terminal 1'')]) \<and>
   tabs_running (run xs (TerminalEmulator cwd d c)) \<and>
   (main_tab_widget s \<noteq> [] \<longrightarrow> 1 \<le> length (main_tab_widget (step x s))) \<and>
   (removeTab i (main_tab_widget s) = [] \<longrightarrow>
      main_tab_widget (close_main_tab i s) = [(length (widgets s), ''Terminal 1'')] \<and>
      length (widgets (close_main_tab i s)) = Suc (length (widgets s)) \<and>
      widgets (close_main_tab i s) ! length (widgets s) =
        apply_settings (XTermWidget (getcwd s) (initial_directory s)
          (if truthy (command s) then command s else PNone)) \<and>
      process_running (widgets (close_main_tab i s) ! length (widgets s))) \<and>
   (in_range (main_tab_widget s) i \<and> fst (main_tab_widget s ! nat i) < length (widgets s) \<longrightarrow>
      \<not> process_running (widgets (close_main_tab i s) ! fst (main_tab_widget s ! nat i))) \<and>
   main_tab_widget (add_terminal_tab d' c' ''main'' s) =
     main_tab_widget s @ [(length (widgets s), new_label s)] \<and>
   length (widgets (add_terminal_tab d' c' ''main'' s)) = Suc (length (widgets s)) \<and>
   process_running (widgets (add_terminal_tab d' c' ''main'' s) ! length (widgets s))"
proof -
  have "main_tab_widget (run xs (TerminalEmulator cwd d c)) \<noteq> []"
    by (rule run_main_nonempty) (simp add: TerminalEmulator_main)
  then have a: "1 \<le> length (main_tab_widget (run xs (TerminalEmulator cwd d c)))"
    by (cases "main_tab_widget (run xs (TerminalEmulator cwd d c))") simp_all
  have b: "1 \<le> length (main_tab_widget (close_main_tab i s))"
    by (simp add: close_main_tab_def Let_def main_add_terminal_tab Suc_le_eq)
  have c: "1 \<le> length (main_tab_widget (add_terminal_tab d' c' ''main'' s))"
    by (simp add: main_add_terminal_tab)
  have d: "length (main_tab_widget s) = 1 \<longrightarrow>
      main_tab_widget (close_main_tab 0 s) = [(length (widgets s), ''Terminal 1'')]"
    using close_last_main by blast
  have e: "tabs_running (run xs (TerminalEmulator cwd d c))"
    by (rule run_tabs_running [OF TerminalEmulator_tabs_running TerminalEmulator_wf])
  have f: "main_tab_widget s \<noteq> [] \<longrightarrow> 1 \<le> length (main_tab_widget (step x s))"
  proof
    assume "main_tab_widget s \<noteq> []"
    then have "main_tab_widget (step x s) \<noteq> []" by (rule step_main_nonempty)
    then show "1 \<le> length (main_tab_widget (step x s))"
      by (cases "main_tab_widget (step x s)") simp_all
  qed
  have g: "removeTab i (main_tab_widget s) = [] \<longrightarrow>
      main_tab_widget (close_main_tab i s) = [(length (widgets s), ''Terminal 1'')] \<and>
      length (widgets (close_main_tab i s)) = Suc (length (widgets s)) \<and>
      widgets (close_main_tab i s) ! length (widgets s) =
        apply_settings (XTermWidget (getcwd s) (initial_directory s)
          (if truthy (command s) then command s else PNone)) \<and>
      process_running (widgets (close_main_tab i s) ! length (widgets s))"
    using close_main_tab_replaces [of i s] by blast
  have h: "in_range (main_tab_widget s) i \<and> fst (main_tab_widget s ! nat i) < length (widgets s) \<longrightarrow>
      \<not> process_running (widgets (close_main_tab i s) ! fst (main_tab_widget s ! nat i))"
    using close_main_tab_terminates [of s i] by blast
  have k: "main_tab_widget (add_terminal_tab d' c' ''main'' s) =
      main_tab_widget s @ [(length (widgets s), new_label s)]"
    by (simp add: main_add_terminal_tab)
  have l: "length (widgets (add_terminal_tab d' c' ''main'' s)) = Suc (length (widgets s))"
    by simp
  have m: "process_running (widgets (add_terminal_tab d' c' ''main'' s) ! length (widgets s))"
    by (rule add_terminal_tab_running)
  show ?thesis using a b c d e f g h k l m by blast
qed

theorem primary_never_empty_witness:
  "length (main_tab_widget (TerminalEmulator ''/home'' PNone PNone)) = 1 \<and>
   removeTab 0 (main_tab_widget (TerminalEmulator ''/home'' PNone PNone)) = [] \<and>
   in_range (main_tab_widget (TerminalEmulator ''/home'' PNone PNone)) 0 \<and>
   main_tab_widget (close_main_tab 0 (TerminalEmulator ''/home'' PNone PNone)) =
     [(1, ''Terminal 1'')] \<and>
   length (widgets (close_main_tab 0 (TerminalEmulator ''/home'' PNone PNone))) = 2 \<and>
   process_running (widgets (close_main_tab 0 (TerminalEmulator ''/home'' PNone PNone)) ! 1) \<and>
   \<not> process_running (widgets (close_main_tab 0 (TerminalEmulator ''/home'' PNone PNone)) ! 0) \<and>
   1 \<le> length (main_tab_widget (step (CloseMainTab 0) (TerminalEmulator ''/home'' PNone PNone))) \<and>
   1 \<le> length (main_tab_widget
          (run [CloseMainTab 0, CloseMainTab 0] (TerminalEmulator ''/home'' PNone PNone))) \<and>
   tabs_running (run [CloseMainTab 0, CloseMainTab 0] (TerminalEmulator ''/home'' PNone PNone))"
proof -
  let ?s = "TerminalEmulator ''/home'' PNone PNone"
  have a: "length (main_tab_widget ?s) = 1" "removeTab 0 (main_tab_widget ?s) = []"
    "in_range (main_tab_widget ?s) 0" "main_tab_widget ?s \<noteq> []"
    by code_simp+
  have b: "length (widgets ?s) = 1" "fst (main_tab_widget ?s ! nat 0) = 0" by code_simp+
  from primary_never_empty [where xs = "[CloseMainTab 0, CloseMainTab 0]" and cwd = "''/home''"
      and d = PNone and c = PNone and s = ?s and i = 0 and x = "CloseMainTab 0"
      and d' = PNone and c' = PNone] a
  have t: "main_tab_widget (close_main_tab 0 ?s) = [(length (widgets ?s), ''Terminal 1'')] \<and>
      length (widgets (close_main_tab 0 ?s)) = Suc (length (widgets ?s)) \<and>
      process_running (widgets (close_main_tab 0 ?s) ! length (widgets ?s)) \<and>
      (fst (main_tab_widget ?s ! nat 0) < length (widgets ?s) \<longrightarrow>
         \<not> process_running (widgets (close_main_tab 0 ?s) ! fst (main_tab_widget ?s ! nat 0))) \<and>
      1 \<le> length (main_tab_widget (step (CloseMainTab 0) ?s)) \<and>
      1 \<le> length (main_tab_widget (run [CloseMainTab 0, CloseMainTab 0] ?s)) \<and>
      tabs_running (run [CloseMainTab 0, CloseMainTab 0] ?s)"
    by blast
  show ?thesis using t a unfolding b by simp
qed

section \<open>Resize events are coalesced\<close>

lemma occur_all_append: "occur_all (xs @ ys) r = occur_all ys (occur_all xs r)"
  by (induction xs arbitrary: r) simp_all

lemma occur_Resized:
  "occur (Resized w h) r = r\<lparr>size_width := w, size_height := h, resize_timer := Some 50\<rparr>"
  by (simp add: eventFilter_def timer_start_def)

lemma occur_all_burst:
  "list_all (\<lambda>x. fst x < 50) rest \<Longrightarrow> resize_timer r = Some 50 \<Longrightarrow>
     occur_all (burst rest) r =
       (case last ((size_width r, size_height r) # map snd rest) of
          (w, h) \<Rightarrow> r\<lparr>size_width := w, size_height := h\<rparr>)"
proof (induction rest arbitrary: r)
  case Nil
  then show ?case by simp
next
  case (Cons x rest)
  obtain gap w h where x: "x = (gap, w, h)" by (cases x)
  let ?r = "r\<lparr>size_width := w, size_height := h\<rparr>"
  have g: "gap < 50" and a: "list_all (\<lambda>x. fst x < 50) rest"
    using Cons.prems(1) x by simp_all
  have s: "occur (Resized w h) (occur (Passes gap) r) = ?r"
    using g Cons.prems(2) by (simp add: eventFilter_def timer_start_def)
  have t: "resize_timer ?r = Some 50" using Cons.prems(2) by simp
  have "occur_all (burst (x # rest)) r = occur_all (burst rest) ?r"
    unfolding x using s by simp
  also have "\<dots> = (case last ((size_width ?r, size_height ?r) # map snd rest) of
          (w', h') \<Rightarrow> ?r\<lparr>size_width := w', size_height := h'\<rparr>)"
    using a t by (rule Cons.IH)
  also have "\<dots> = (case last ((size_width r, size_height r) # map snd (x # rest)) of
          (w', h') \<Rightarrow> r\<lparr>size_width := w', size_height := h'\<rparr>)"
    unfolding x by (simp split: prod.splits)
  finally show ?case .
qed

lemma occur_all_idle:
  "resize_timer r = None \<Longrightarrow> occur_all (map Passes ds) r = r"
  by (induction ds) simp_all

text \<open>
  Claim C8. A widget receives a resize event and then any number of further ones,
  each less than 50 milliseconds after the one before it. While the burst lasts
  \<^verbatim>\<open>resize_terminal\<close> is not called and every event sets the timer back to the full
  50 milliseconds. Once 50 milliseconds or more pass without a resize event,
  \<^verbatim>\<open>resize_terminal\<close> has been called exactly once, with the size that the last event
  of the burst gave the widget, and the timer has stopped; however much more time
  passes, no further call follows.
\<close>

theorem debounce_one_resize:
  assumes "list_all (\<lambda>x. fst x < 50) rest" and "50 \<le> d"
    and "last ((w0, h0) # map snd rest) = (w, h)"
  shows "resize_calls (occur_all (Resized w0 h0 # burst rest) r) = resize_calls r \<and>
     resize_timer (occur_all (Resized w0 h0 # burst rest) r) = Some 50 \<and>
     resize_calls (occur_all (Resized w0 h0 # burst rest @ [Passes d]) r) =
       resize_calls r @ [(w, h, max 1 (w div 7), max 1 (h div 15))] \<and>
     resize_timer (occur_all (Resized w0 h0 # burst rest @ [Passes d]) r) = None \<and>
     resize_calls (occur_all (Resized w0 h0 # burst rest @ Passes d # map Passes ds) r) =
       resize_calls r @ [(w, h, max 1 (w div 7), max 1 (h div 15))]"
proof -
  let ?r0 = "r\<lparr>size_width := w0, size_height := h0, resize_timer := Some 50\<rparr>"
  let ?r1 = "r\<lparr>size_width := w, size_height := h, resize_timer := Some 50\<rparr>"
  let ?r2 = "r\<lparr>size_width := w, size_height := h, resize_timer := None,
      resize_calls := resize_calls r @ [(w, h, max 1 (w div 7), max 1 (h div 15))]\<rparr>"
  have b: "occur_all (Resized w0 h0 # burst rest) r = ?r1"
    using occur_all_burst [OF assms(1), of ?r0] assms(3)
    by (simp add: occur_Resized del: occur.simps)
  have q: "occur (Passes d) ?r1 = ?r2"
    using assms(2) by (simp add: resize_terminal_def)
  have "occur_all (Resized w0 h0 # burst rest @ [Passes d]) r =
      occur (Passes d) (occur_all (Resized w0 h0 # burst rest) r)"
    using occur_all_append [of "Resized w0 h0 # burst rest" "[Passes d]" r]
    by (simp del: occur.simps)
  then have c: "occur_all (Resized w0 h0 # burst rest @ [Passes d]) r = ?r2"
    unfolding b q .
  have "occur_all (Resized w0 h0 # burst rest @ Passes d # map Passes ds) r =
      occur_all (map Passes ds) (occur_all (Resized w0 h0 # burst rest @ [Passes d]) r)"
    using occur_all_append [of "Resized w0 h0 # burst rest @ [Passes d]" "map Passes ds" r]
    by simp
  also have "\<dots> = ?r2" unfolding c by (rule occur_all_idle) simp
  finally have e: "occur_all (Resized w0 h0 # burst rest @ Passes d # map Passes ds) r = ?r2" .
  show ?thesis unfolding b c e by simp
qed

theorem debounce_one_resize_witness:
  "list_all (\<lambda>x. fst x < 50) [(10::nat, 700::nat, 450::nat), (49, 1400, 300)] \<and>
   (50::nat) \<le> 50 \<and>
   last ((640, 480) # map snd [(10, 700, 450), (49, 1400, 300)]) = (1400, 300) \<and>
   resize_calls (occur_all [Resized 640 480, Passes 10, Resized 700 450, Passes 49,
       Resized 1400 300, Passes 50]
     \<lparr>size_width = 100, size_height = 30, resize_timer = None, resize_calls = []\<rparr>) =
     [(1400, 300, 200, 20)]"
proof -
  have a: "list_all (\<lambda>x. fst x < 50) [(10::nat, 700::nat, 450::nat), (49, 1400, 300)]"
    "(50::nat) \<le> 50"
    "last ((640, 480) # map snd [(10, 700, 450), (49, 1400, 300)]) = (1400::nat, 300::nat)"
    by simp_all
  from debounce_one_resize [OF a, where ds = "[]" and
      r = "\<lparr>size_width = 100, size_height = 30, resize_timer = None, resize_calls = []\<rparr>"]
  have "resize_calls (occur_all (Resized 640 480 # burst [(10, 700, 450), (49, 1400, 300)] @
        [Passes 50])
      \<lparr>size_width = 100, size_height = 30, resize_timer = None, resize_calls = []\<rparr>) =
      resize_calls \<lparr>size_width = 100, size_height = 30, resize_timer = None, resize_calls = []\<rparr> @
        [(1400, 300, max 1 (1400 div 7), max 1 (300 div 15))]"
    by blast
  then show ?thesis using a by simp
qed

section \<open>Frames that cannot be decoded\<close>

lemma read_socket_bad_header:
  assumes "8 \<le> length (available k)" and "is_ascii (take 8 (available k))"
    and "py_int (take 8 (available k)) = None"
  shows "read_socket isdir app k =
     Inr (app\<lparr>app_dialogs := app_dialogs app @ [''Received invalid message length.'']\<rparr>,
          k\<lparr>available := drop 8 (available k), connected := False\<rparr>)"
  using assms by (simp add: read_socket_def decode_utf8_def disconnectFromServer_def Let_def)





section \<open>Frames that arrive in pieces\<close>

subsection \<open>The length header is read back\<close>

lemma digit_char_props:
  assumes "d < 10"
  shows "is_digit (digit_char d)" and "digit_val (digit_char d) = d"
  using assms by (simp_all add: is_digit_def digit_val_def digit_char_def)

lemma str_nat_digits: "list_all is_digit (str_nat n)"
proof (induction n rule: str_nat.induct)
  case (1 n)
  show ?case
  proof (cases "n < 10")
    case True
    then show ?thesis by (subst str_nat.simps) (simp add: digit_char_props)
  next
    case False
    then show ?thesis using 1 by (subst str_nat.simps) (simp add: digit_char_props)
  qed
qed

lemma str_nat_nonempty: "str_nat n \<noteq> []"
  by (subst str_nat.simps) simp

lemma digits_value_snoc: "digits_value (ds @ [c]) = 10 * digits_value ds + digit_val c"
  by (simp add: digits_value_def)

lemma digits_value_str_nat: "digits_value (str_nat n) = n"
proof (induction n rule: str_nat.induct)
  case (1 n)
  show ?case
  proof (cases "n < 10")
    case True
    then show ?thesis
      by (subst str_nat.simps) (simp add: digits_value_def digit_char_props)
  next
    case False
    then have "digits_value (str_nat (n div 10)) = n div 10" using 1 by simp
    then show ?thesis using False
      by (subst str_nat.simps) (simp add: digits_value_snoc digit_char_props)
  qed
qed

lemma length_str_nat: "n < 10 ^ Suc k \<Longrightarrow> length (str_nat n) \<le> Suc k"
proof (induction k arbitrary: n)
  case 0
  then show ?case by (subst str_nat.simps) simp
next
  case (Suc k)
  show ?case
  proof (cases "n < 10")
    case True
    then show ?thesis by (subst str_nat.simps) simp
  next
    case False
    have "n div 10 < 10 ^ Suc k" using Suc.prems by (simp add: less_mult_imp_div_less mult.commute)
    then have "length (str_nat (n div 10)) \<le> Suc k" by (rule Suc.IH)
    then show ?thesis using False by (subst str_nat.simps) simp
  qed
qed

lemma parse_digits_all:
  "list_all is_digit ds \<Longrightarrow>
     parse_digits p acc ds =
       (if ds = [] then (if p then Some acc else None)
        else Some (foldl (\<lambda>a c. 10 * a + digit_val c) acc ds))"
  by (induction ds arbitrary: p acc) simp_all

lemma digits_not_space: "is_digit c \<Longrightarrow> \<not> py_isspace c"
  by (auto simp add: is_digit_def py_isspace_def Let_def)

lemma py_strip_digits: "list_all is_digit ds \<Longrightarrow> py_strip ds = ds"
proof -
  assume a: "list_all is_digit ds"
  have d: "list_all is_digit xs \<Longrightarrow> dropWhile py_isspace xs = xs" for xs
    by (cases xs) (simp_all add: digits_not_space)
  have "list_all is_digit (rev ds)" using a by (simp add: list_all_iff)
  then show ?thesis using a by (simp add: py_strip_def d)
qed

lemma format08_digits: "list_all is_digit (format08 n)"
proof -
  have "is_digit (CHR ''0'')" by (simp add: is_digit_def)
  then have "list_all is_digit (replicate (8 - length (str_nat n)) (CHR ''0''))"
    by (simp add: list_all_iff)
  then show ?thesis using str_nat_digits [of n] by (simp add: format08_def)
qed

lemma digits_value_zeros: "digits_value (replicate k (CHR ''0'') @ ds) = digits_value ds"
  by (induction k) (simp_all add: digits_value_def digit_val_def)

lemma py_int_format08: "py_int (format08 n) = Some (int n)"
proof -
  have ne: "format08 n \<noteq> []" by (simp add: format08_def str_nat_nonempty)
  then obtain c cs where f: "format08 n = c # cs" by (cases "format08 n") auto
  have "is_digit c" using format08_digits [of n] f by simp
  then have c: "c \<noteq> CHR ''-''" "c \<noteq> CHR ''+''" by (auto simp add: is_digit_def)
  have "parse_digits False 0 (format08 n) = Some (digits_value (format08 n))"
    using format08_digits [of n] ne by (simp add: parse_digits_all digits_value_def)
  also have "digits_value (format08 n) = n"
    by (simp add: format08_def digits_value_zeros digits_value_str_nat)
  finally have "parse_digits False 0 (c # cs) = Some n" using f by simp
  then show ?thesis using c f format08_digits [of n]
    by (simp add: py_int_def py_strip_digits)
qed

lemma length_format08: "n < 100000000 \<Longrightarrow> length (format08 n) = 8"
proof -
  assume "n < 100000000"
  then have "n < 10 ^ Suc 7" by simp
  then have "length (str_nat n) \<le> Suc 7" by (rule length_str_nat)
  then show ?thesis by (simp add: format08_def)
qed

lemma digits_ascii: "list_all is_digit ds \<Longrightarrow> is_ascii ds"
  by (auto simp add: is_ascii_def list_all_iff is_digit_def)

subsection \<open>The encoded message is read back\<close>

lemma hex_table:
  "list_all (\<lambda>d. hexval (hex_digit d) = Some d \<and> (of_char (hex_digit d) :: nat) < 128) [0..<16]"
  by code_simp

lemma hexval_hex_digit:
  assumes "d < 16"
  shows "hexval (hex_digit d) = Some d" and "(of_char (hex_digit d) :: nat) < 128"
  using hex_table assms by (simp_all add: list_all_iff)

lemma hex4_of_char:
  "hex4 (CHR ''0'') (CHR ''0'') (hex_digit ((of_char c :: nat) div 16))
     (hex_digit ((of_char c :: nat) mod 16)) = Some (of_char c)"
proof -
  have a: "(of_char c :: nat) div 16 < 16"
    using nat_of_char_less_256 [of c] by arith
  have b: "(of_char c :: nat) mod 16 < 16" by simp
  have z: "hexval (CHR ''0'') = Some 0" by (simp add: hexval_def)
  show ?thesis
    by (simp add: hex4_def z hexval_hex_digit(1) [OF a] hexval_hex_digit(1) [OF b])
qed

lemma scanstring_escape_char:
  "scanstring (escape_char c @ rest) acc = scanstring rest (c # acc)"
proof -
  consider (quote) "c = CHR 0x22" | (backslash) "c = CHR 0x5C"
    | (short) "c = CHR 0x0A \<or> c = CHR 0x0D \<or> c = CHR 0x09 \<or> c = CHR 0x08 \<or> c = CHR 0x0C"
    | (plain) "c \<noteq> CHR 0x22" "c \<noteq> CHR 0x5C" "32 \<le> (of_char c :: nat)" "(of_char c :: nat) \<le> 126"
    | (other) "c \<noteq> CHR 0x22" "c \<noteq> CHR 0x5C" "c \<noteq> CHR 0x0A" "c \<noteq> CHR 0x0D"
        "c \<noteq> CHR 0x09" "c \<noteq> CHR 0x08" "c \<noteq> CHR 0x0C"
        "\<not> (32 \<le> (of_char c :: nat) \<and> (of_char c :: nat) \<le> 126)"
    by blast
  then show ?thesis
  proof cases
    case quote
    then show ?thesis by (simp add: escape_char_def unescape_def)
  next
    case backslash
    then show ?thesis by (simp add: escape_char_def unescape_def)
  next
    case short
    then show ?thesis by (auto simp add: escape_char_def unescape_def)
  next
    case plain
    then have "escape_char c = [c]" by (auto simp add: escape_char_def)
    then show ?thesis using plain by simp
  next
    case other
    then have "escape_char c = [CHR 0x5C, CHR ''u'', CHR ''0'', CHR ''0'',
        hex_digit ((of_char c :: nat) div 16), hex_digit ((of_char c :: nat) mod 16)]"
      by (simp add: escape_char_def)
    then show ?thesis
      by (simp add: hex4_of_char nat_of_char_less_256)
  qed
qed

lemma scanstring_escaped:
  "scanstring (concat (map escape_char s) @ rest) acc = scanstring rest (rev s @ acc)"
  by (induction s arbitrary: acc) (simp_all add: scanstring_escape_char)

lemma scanstring_dumps:
  "scanstring (concat (map escape_char s) @ CHR 0x22 # rest) [] = Inr (s, rest)"
  by (simp add: scanstring_escaped)

lemma is_ascii_append [simp]: "is_ascii (xs @ ys) = (is_ascii xs \<and> is_ascii ys)"
  by (simp add: is_ascii_def)

lemma is_ascii_simps [simp]:
  "is_ascii [] = True"
  "is_ascii (c # cs) = ((of_char c :: nat) < 128 \<and> is_ascii cs)"
  by (simp_all add: is_ascii_def)

lemma escape_char_ascii: "is_ascii (escape_char c)"
proof -
  have a: "(of_char c :: nat) div 16 < 16"
    using nat_of_char_less_256 [of c] by arith
  have b: "(of_char c :: nat) mod 16 < 16" by simp
  show ?thesis
    using hexval_hex_digit(2) [OF a] hexval_hex_digit(2) [OF b]
    by (simp add: escape_char_def)
qed

lemma is_ascii_concat: "list_all is_ascii xss \<Longrightarrow> is_ascii (concat xss)"
  by (induction xss) simp_all

lemma json_dumps_opt_ascii: "is_ascii (json_dumps_opt v)"
proof (cases v)
  case None
  then show ?thesis by (simp add: json_dumps_opt_def)
next
  case (Some s)
  have "is_ascii (concat (map escape_char s))"
    by (rule is_ascii_concat) (simp add: list_all_iff escape_char_ascii)
  then show ?thesis using Some
    by (simp add: json_dumps_opt_def json_dumps_str_def)
qed

lemma json_dumps_message_ascii: "is_ascii (json_dumps_message f c)"
  by (simp add: json_dumps_message_def json_dumps_opt_ascii)

lemma scan_once_dumps_opt:
  "scan_once (Suc n) d (json_dumps_opt v @ rest) = Inr (py_opt v, rest)"
proof (cases v)
  case None
  then show ?thesis by (simp add: json_dumps_opt_def py_opt_def)
next
  case (Some s)
  then show ?thesis
    by (simp add: json_dumps_opt_def json_dumps_str_def py_opt_def scanstring_dumps)
qed

lemma skip_ws_simps [simp]:
  "skip_ws [] = []"
  "skip_ws (c # cs) = (if is_ws c then skip_ws cs else c # cs)"
  by (simp_all add: skip_ws_def)

lemma skip_ws_dumps_opt: "skip_ws (json_dumps_opt v @ rest) = json_dumps_opt v @ rest"
  by (cases v) (simp_all add: json_dumps_opt_def json_dumps_str_def is_ws_def)

lemma scan_message:
  "scan_once (Suc (Suc (Suc (Suc (Suc k))))) 100 (json_dumps_message f c) =
     Inr (PDict [(''action'', PStr ''open_new_tab''), (''folder'', py_opt f),
                 (''command'', py_opt c)], [])"
  by (simp add: json_dumps_message_def is_ws_def unescape_def scan_once_dumps_opt
        skip_ws_dumps_opt)

lemma length_json_dumps_message: "4 \<le> length (json_dumps_message f c)"
  by (simp add: json_dumps_message_def)

lemma json_loads_dumps:
  "json_loads (json_dumps_message f c) =
     Inr (PDict [(''action'', PStr ''open_new_tab''), (''folder'', py_opt f),
                 (''command'', py_opt c)])"
proof -
  obtain k where "length (json_dumps_message f c) = 4 + k"
    using length_json_dumps_message [of f c] le_Suc_ex by blast
  then have k: "length (json_dumps_message f c) = Suc (Suc (Suc (Suc k)))" by simp
  have s: "skip_ws (json_dumps_message f c) = json_dumps_message f c"
    by (simp add: json_dumps_message_def is_ws_def)
  show ?thesis
    unfolding json_loads_def s k by (simp add: scan_message)
qed

text \<open>
  A frame that has arrived whole when \<^verbatim>\<open>read_socket\<close> runs is decoded to the
  message that was sent: the window gets one new main tab with the sender's command,
  in the sender's folder when that is a directory.
\<close>

lemma handle_dumped_message:
  "handle_new_instance_message isdir w (json_dumps_message f c) =
     Inr (add_terminal_tab
            (if truthy (py_opt f) \<and> isdir (py_opt f) then py_opt f else PNone)
            (py_opt c) ''main'' w)"
  by (cases f)
    (simp_all add: handle_new_instance_message_def json_loads_dumps dict_get_def py_isdir_def
      py_opt_def Let_def)

lemma read_socket_whole_frame:
  assumes "is_ascii body" and "body \<noteq> []" and "length body < 100000000"
    and "main_window app = Some w"
    and "handle_new_instance_message isdir w body = Inr w'"
  shows "read_socket isdir app \<lparr>available = format08 (length body) @ body, connected = True\<rparr> =
     Inr (app\<lparr>main_window := Some w'\<rparr>, \<lparr>available = [], connected = False\<rparr>)"
proof -
  have l: "length (format08 (length body)) = 8"
    using assms(3) by (rule length_format08)
  have a: "is_ascii (format08 (length body))"
    by (rule digits_ascii) (rule format08_digits)
  show ?thesis
    using assms l a
    by (simp add: read_socket_def decode_utf8_def disconnectFromServer_def Let_def
          py_int_format08)
qed

lemma whole_frame_is_decoded:
  assumes "length (json_dumps_message (none_if_empty (arg_folder a))
             (none_if_empty (arg_command a))) < 100000000"
  shows "deliver isdir [encode_message a] (accept_connection w) =
     Inr (\<lparr>main_window = Some (add_terminal_tab
              (if truthy (py_opt (none_if_empty (arg_folder a))) \<and>
                  isdir (py_opt (none_if_empty (arg_folder a)))
               then py_opt (none_if_empty (arg_folder a)) else PNone)
              (py_opt (none_if_empty (arg_command a))) ''main'' w),
            app_dialogs = []\<rparr>,
          \<lparr>available = [], connected = False\<rparr>)"
proof -
  let ?body = "json_dumps_message (none_if_empty (arg_folder a)) (none_if_empty (arg_command a))"
  let ?app = "\<lparr>main_window = Some w, app_dialogs = []\<rparr>"
  have ne: "?body \<noteq> []" using length_json_dumps_message [of "none_if_empty (arg_folder a)"
      "none_if_empty (arg_command a)"] by auto
  have e: "encode_message a = format08 (length ?body) @ ?body"
    by (simp add: encode_message_def Let_def)
  have "read_socket isdir ?app \<lparr>available = format08 (length ?body) @ ?body, connected = True\<rparr> =
      Inr (?app\<lparr>main_window := Some (add_terminal_tab
              (if truthy (py_opt (none_if_empty (arg_folder a))) \<and>
                  isdir (py_opt (none_if_empty (arg_folder a)))
               then py_opt (none_if_empty (arg_folder a)) else PNone)
              (py_opt (none_if_empty (arg_command a))) ''main'' w)\<rparr>,
           \<lparr>available = [], connected = False\<rparr>)"
    by (rule read_socket_whole_frame [OF json_dumps_message_ascii ne assms _
          handle_dumped_message]) simp
  then show ?thesis using ne
    by (simp add: accept_connection_def e)
qed

text \<open>
  For every message, when the header arrives on its own and the body after it, the
  first call consumes the header, the second takes the start of the body for a
  header, and the message is dropped with a warning.
\<close>

lemma take8_json_dumps_message:
  \<open>take 8 (json_dumps_message f c) = ''{"action''\<close>
  \<open>8 \<le> length (json_dumps_message f c)\<close>
  by (simp_all add: json_dumps_message_def)

lemma py_int_brace: \<open>py_int ''{"action'' = None\<close> \<open>is_ascii ''{"action''\<close>
  by code_simp+

lemma header_then_body_is_lost:
  assumes "length (json_dumps_message f c) < 100000000"
  shows "deliver isdir [format08 (length (json_dumps_message f c)), json_dumps_message f c]
           (accept_connection w) =
     Inr (\<lparr>main_window = Some w, app_dialogs = [''Received invalid message length.'']\<rparr>,
          \<lparr>available = drop 8 (json_dumps_message f c), connected = False\<rparr>)"
proof -
  let ?body = "json_dumps_message f c"
  let ?app = "\<lparr>main_window = Some w, app_dialogs = []\<rparr>"
  have l: "length (format08 (length ?body)) = 8"
    using assms by (rule length_format08)
  have a: "is_ascii (format08 (length ?body))"
    by (rule digits_ascii) (rule format08_digits)
  have pos: "0 < length ?body" using take8_json_dumps_message(2) [of f c] by auto
  have first: "read_socket isdir ?app \<lparr>available = format08 (length ?body), connected = True\<rparr> =
      Inr (?app, \<lparr>available = [], connected = True\<rparr>)"
    using l a pos
    by (simp add: read_socket_def decode_utf8_def Let_def py_int_format08)
  have second: "read_socket isdir ?app \<lparr>available = ?body, connected = True\<rparr> =
      Inr (?app\<lparr>app_dialogs := app_dialogs ?app @ [''Received invalid message length.'']\<rparr>,
           \<lparr>available = ?body, connected = True\<rparr>
             \<lparr>available := drop 8 ?body, connected := False\<rparr>)"
    using read_socket_bad_header [of "\<lparr>available = ?body, connected = True\<rparr>" isdir ?app]
    by (simp add: take8_json_dumps_message py_int_brace)
  have ne: "format08 (length ?body) \<noteq> []" "?body \<noteq> []" using l pos by auto
  show ?thesis using ne first second
    by (simp add: accept_connection_def)
qed

text \<open>
  Claim C1 at a concrete message. The frame for the command ls is the header 00000059
  and a body of 59 bytes. Delivered in one piece it opens a second tab. Delivered as
  the header followed by the body, the first call consumes the header and returns,
  the second call reads the first eight bytes of the body as a header, and the
  message is lost with a warning.
\<close>

theorem chunked_delivery_loses_message:
  "encode_message \<lparr>arg_new = False, arg_folder = None, arg_command = Some ''ls''\<rparr> =
     ''00000059'' @ json_dumps_message None (Some ''ls'') \<and>
   map_sum id (\<lambda>(a, k). (map_option main_tab_widget (main_window a), app_dialogs a, connected k))
     (deliver (\<lambda>v. False)
        [''00000059'' @ json_dumps_message None (Some ''ls'')]
        (accept_connection (TerminalEmulator ''/home'' PNone PNone)))
   = Inr (Some [(0, ''Terminal 1''), (1, ''Terminal 2'')], [], False) \<and>
   map_sum id (\<lambda>(a, k). (map_option main_tab_widget (main_window a), app_dialogs a, connected k))
     (deliver (\<lambda>v. False)
        [''00000059'', json_dumps_message None (Some ''ls'')]
        (accept_connection (TerminalEmulator ''/home'' PNone PNone)))
   = Inr (Some [(0, ''Terminal 1'')], [''Received invalid message length.''], False)"
  by code_simp

section \<open>The exit status of a second instance\<close>

text \<open>
  Claim C10, as amended. Started without \<^verbatim>\<open>--new\<close> while the endpoint cannot be
  bound, the process always leaves with status 0. The warning is shown exactly when
  the connection was not made, and then nothing is sent; whether the write succeeded
  has no influence on the dialogs or the status.
\<close>

theorem client_exits_with_zero:
  "\<not> arg_new a \<and> \<not> listen_ok env \<longrightarrow>
     st_role (main env a) = Exited 0 \<and>
     st_dialogs (main env a) =
       (if connect_ok env then [] else [''Unable to connect to the running instance.'']) \<and>
     st_written (main env a) = (if connect_ok env then encode_message a else [])"
  by (simp add: main_def SingleInstanceApplication_def send_message_def)

text \<open>
  The claim as stated fails: when the connection is made and the write fails, no
  warning is shown.
\<close>

theorem failed_write_is_silent_counterexample:
  "st_dialogs (main \<lparr>listen_ok = False, connect_ok = True, write_ok = False\<rparr>
      \<lparr>arg_new = False, arg_folder = None, arg_command = None\<rparr>) = [] \<and>
   st_role (main \<lparr>listen_ok = False, connect_ok = True, write_ok = False\<rparr>
      \<lparr>arg_new = False, arg_folder = None, arg_command = None\<rparr>) = Exited 0"
  by (simp add: main_def SingleInstanceApplication_def send_message_def)

theorem client_exits_with_zero_witness:
  "\<not> arg_new \<lparr>arg_new = False, arg_folder = None, arg_command = None\<rparr> \<and>
   \<not> listen_ok \<lparr>listen_ok = False, connect_ok = False, write_ok = False\<rparr> \<and>
   st_role (main \<lparr>listen_ok = False, connect_ok = False, write_ok = False\<rparr>
      \<lparr>arg_new = False, arg_folder = None, arg_command = None\<rparr>) = Exited 0 \<and>
   st_dialogs (main \<lparr>listen_ok = False, connect_ok = False, write_ok = False\<rparr>
      \<lparr>arg_new = False, arg_folder = None, arg_command = None\<rparr>)
     = [''Unable to connect to the running instance.'']"
  using client_exits_with_zero [of "\<lparr>arg_new = False, arg_folder = None, arg_command = None\<rparr>"
      "\<lparr>listen_ok = False, connect_ok = False, write_ok = False\<rparr>"]
  by simp

end
